theory Spec2Isabelle
  imports Main "HOL-Library.Sublist"
begin

section \<open>Data model\<close>

text \<open>
  A LangChain \<open>Document\<close>: the text (\<open>page_content\<close>) and its metadata mapping.
  Python strings are modelled as \<open>string\<close>; a character stands for one code point of
  the Latin-1 range.
\<close>

record document =
  page_content :: string
  metadata :: "(string \<times> string) list"

text \<open>
  Exceptions. Every \<open>raise\<close> of the services is a \<open>ValueError\<close> carrying its message.
  \<open>LibraryValueError\<close> is a \<open>ValueError\<close> raised inside a library, told by its cause;
  its message is not modelled. \<open>OtherException\<close> is any exception that is not a
  \<open>ValueError\<close>.
\<close>

datatype library_failure =
    Empty_insert
  | Search_type_not_allowed string
  | Score_threshold_not_specified

datatype exn = ValueError string | LibraryValueError library_failure | OtherException string

text \<open>
  Log records of level WARNING and above, one constructor per logging statement of the
  service methods and of the LLM factory modelled below, carrying the values the message
  interpolates. INFO and DEBUG records, and the records the HTTP endpoints of \<open>main.py\<close>
  write themselves, are not modelled.
\<close>

datatype log_record =
    Warning_empty_content nat "nat list"
  | Warning_unsupported_file_type string
  | Error_loading_file string exn
  | Critical_unknown_strategy string
  | Critical_vectorstore_missing
  | Critical_unknown_provider string

section \<open>The vector database (external collaborator)\<close>

text \<open>
  The Chroma client is shared by the whole process: a collection is addressed by its name
  and outlives the handles on it. An entry is an identifier generated at insertion time
  together with the stored document. \<open>search_log\<close> records every search the client
  serves (collection name and query). \<open>name_error\<close> is the client's rule for collection
  names: the exception it raises for a name it rejects, \<open>None\<close> for a name it accepts.
\<close>

type_synonym entry = "nat \<times> document"

record chroma_client =
  collections :: "string \<rightharpoonup> entry list"
  next_id :: nat
  search_log :: "(string \<times> string) list"
  name_error :: "string \<Rightarrow> exn option"

text \<open>A \<open>Chroma\<close> object is a handle on one named collection of the client.\<close>

datatype chroma = Chroma (handle_collection: string)

record runtime =
  client :: chroma_client
  logged :: "log_record list"

definition collection_entries :: "chroma_client \<Rightarrow> string \<Rightarrow> entry list" where
  "collection_entries cl name = (case collections cl name of None \<Rightarrow> [] | Some es \<Rightarrow> es)"

text \<open>
  \<open>Chroma(collection_name=..., embedding_function=...)\<close>: the client refuses a name its
  rule rejects; otherwise it gets the collection of that name, with the entries it holds,
  or creates it without entries when there is none.
\<close>

definition chroma_init :: "string \<Rightarrow> chroma_client \<Rightarrow> (exn + chroma) \<times> chroma_client" where
  "chroma_init name cl =
     (case name_error cl name of
        Some e \<Rightarrow> (Inl e, cl)
      | None \<Rightarrow> (Inr (Chroma name),
                 cl\<lparr>collections := (collections cl)(name \<mapsto> collection_entries cl name)\<rparr>))"

text \<open>
  Insertion refuses an empty list of documents with a \<open>ValueError\<close>; otherwise it assigns
  consecutive fresh identifiers, in input order, and appends to the collection.
\<close>

definition chroma_add_documents ::
  "chroma \<Rightarrow> document list \<Rightarrow> chroma_client \<Rightarrow> (exn + nat list) \<times> chroma_client" where
  "chroma_add_documents h docs cl =
     (if docs = [] then (Inl (LibraryValueError Empty_insert), cl)
      else
        (let ids = [next_id cl ..< next_id cl + length docs];
             name = handle_collection h
         in (Inr ids,
             cl\<lparr>collections := (collections cl)(name \<mapsto> collection_entries cl name @ zip ids docs),
                next_id := next_id cl + length docs\<rparr>)))"

text \<open>
  \<open>Chroma.from_documents(documents, embedding, collection_name)\<close>: the handle is
  constructed as above, then the documents are inserted into its collection.
\<close>

definition chroma_from_documents ::
  "document list \<Rightarrow> string \<Rightarrow> chroma_client \<Rightarrow> (exn + chroma) \<times> chroma_client" where
  "chroma_from_documents docs name cl =
     (case chroma_init name cl of
        (Inl e, cl1) \<Rightarrow> (Inl e, cl1)
      | (Inr h, cl1) \<Rightarrow>
          (case chroma_add_documents h docs cl1 of
             (Inl e, cl2) \<Rightarrow> (Inl e, cl2)
           | (Inr ids, cl2) \<Rightarrow> (Inr h, cl2)))"

text \<open>The client of a new process, for a given rule for names.\<close>

definition new_client :: "(string \<Rightarrow> exn option) \<Rightarrow> chroma_client" where
  "new_client rule = \<lparr>collections = Map.empty, next_id = 0, search_log = [], name_error = rule\<rparr>"

definition new_runtime :: "(string \<Rightarrow> exn option) \<Rightarrow> runtime" where
  "new_runtime rule = \<lparr>client = new_client rule, logged = []\<rparr>"

section \<open>VectorStoreService\<close>

datatype embeddings = HuggingFaceEmbeddings "string option"

record vectorstore_service =
  collection_name :: string
  embedding_model :: "string option"
  cached_embeddings :: "embeddings option"
  cached_vectorstore :: "chroma option"

text \<open>\<open>VectorStoreService.__init__\<close>: both caches start as \<open>None\<close>.\<close>

definition new_vectorstore_service :: "string \<Rightarrow> string option \<Rightarrow> vectorstore_service" where
  "new_vectorstore_service name model =
     \<lparr>collection_name = name, embedding_model = model,
      cached_embeddings = None, cached_vectorstore = None\<rparr>"

text \<open>
  The \<open>embeddings\<close> property: built on first access, cached afterwards. Building the
  embedder (\<open>utils.get_embeddings\<close>, then the library's constructor) is taken to
  succeed, in an installation that has PyTorch as the embedder requires, where it logs
  below WARNING only.
\<close>

definition get_embeddings :: "vectorstore_service \<Rightarrow> embeddings \<times> vectorstore_service" where
  "get_embeddings vs =
     (case cached_embeddings vs of
        None \<Rightarrow> (let e = HuggingFaceEmbeddings (embedding_model vs)
                 in (e, vs\<lparr>cached_embeddings := Some e\<rparr>))
      | Some e \<Rightarrow> (e, vs))"

definition vs_exists :: "vectorstore_service \<Rightarrow> bool" where
  "vs_exists vs = (cached_vectorstore vs \<noteq> None)"

text \<open>
  \<open>create_empty_vectorstore\<close>: the handle is assigned to the cache when the constructor
  returns; when it raises, the cache is left as it was.
\<close>

definition create_empty_vectorstore ::
  "vectorstore_service \<Rightarrow> runtime \<Rightarrow> (exn + chroma) \<times> vectorstore_service \<times> runtime" where
  "create_empty_vectorstore vs rt =
     (let (e, vs1) = get_embeddings vs;
          (made, cl) = chroma_init (collection_name vs1) (client rt)
      in case made of
           Inl x \<Rightarrow> (Inl x, vs1, rt\<lparr>client := cl\<rparr>)
         | Inr h \<Rightarrow> (Inr h, vs1\<lparr>cached_vectorstore := Some h\<rparr>, rt\<lparr>client := cl\<rparr>))"

text \<open>The \<open>vectorstore\<close> property: creates the store when none is cached.\<close>

definition get_vectorstore ::
  "vectorstore_service \<Rightarrow> runtime \<Rightarrow> (exn + chroma) \<times> vectorstore_service \<times> runtime" where
  "get_vectorstore vs rt =
     (case cached_vectorstore vs of
        None \<Rightarrow> create_empty_vectorstore vs rt
      | Some h \<Rightarrow> (Inr h, vs, rt))"

text \<open>
  Python's \<open>str.strip()\<close> removes leading and trailing white space; \<open>is_space\<close> lists the
  white-space code points below 256.
\<close>

definition is_space :: "char \<Rightarrow> bool" where
  "is_space c = (of_char c \<in> set [9, 10, 11, 12, 13, 28, 29, 30, 31, 32, 133, 160 :: nat])"

definition strip :: "string \<Rightarrow> string" where
  "strip s = rev (dropWhile is_space (rev (dropWhile is_space s)))"

text \<open>\<open>[i for i, d in enumerate(documents) if not d.page_content.strip()]\<close>\<close>

definition empty_docs :: "document list \<Rightarrow> nat list" where
  "empty_docs docs = map fst (filter (\<lambda>(i, d). strip (page_content d) = []) (enumerate 0 docs))"

text \<open>
  \<open>create_from_documents\<close>: the warning is logged before the library is called; the
  handle is assigned to the cache when \<open>Chroma.from_documents\<close> returns.
\<close>

definition create_from_documents ::
  "vectorstore_service \<Rightarrow> document list \<Rightarrow> runtime
     \<Rightarrow> (exn + chroma) \<times> vectorstore_service \<times> runtime" where
  "create_from_documents vs docs rt =
     (let empties = empty_docs docs;
          rt1 = (if empties \<noteq> []
                 then rt\<lparr>logged := logged rt @ [Warning_empty_content (length empties) (take 10 empties)]\<rparr>
                 else rt);
          (e, vs1) = get_embeddings vs;
          (made, cl) = chroma_from_documents docs (collection_name vs1) (client rt1)
      in case made of
           Inl x \<Rightarrow> (Inl x, vs1, rt1\<lparr>client := cl\<rparr>)
         | Inr h \<Rightarrow> (Inr h, vs1\<lparr>cached_vectorstore := Some h\<rparr>, rt1\<lparr>client := cl\<rparr>))"

text \<open>\<open>VectorStoreService.add_documents\<close>: the result is the list of identifiers.\<close>

definition vs_add_documents ::
  "vectorstore_service \<Rightarrow> document list \<Rightarrow> runtime
     \<Rightarrow> (exn + nat list) \<times> vectorstore_service \<times> runtime" where
  "vs_add_documents vs docs rt =
     (case get_vectorstore vs rt of
        (Inl e, vs1, rt1) \<Rightarrow> (Inl e, vs1, rt1)
      | (Inr h, vs1, rt1) \<Rightarrow>
          (let (result, cl) = chroma_add_documents h docs (client rt1)
           in (result, vs1, rt1\<lparr>client := cl\<rparr>)))"

section \<open>Retrieval\<close>

text \<open>
  Modelled from the spec: the searches of the external vector database (section 4.5).
  The embedder and the cosine similarity are abstracted as integer scores:
  \<open>relevance q t\<close> is the similarity of the text \<open>t\<close> to the query \<open>q\<close>,
  \<open>redundancy t u\<close> the similarity of two stored texts.
\<close>

record scoring =
  relevance :: "string \<Rightarrow> string \<Rightarrow> int"
  redundancy :: "string \<Rightarrow> string \<Rightarrow> int"

definition entry_text :: "entry \<Rightarrow> string" where
  "entry_text e = page_content (snd e)"

text \<open>
  Modelled from the spec: the \<open>k\<close> entries of highest similarity to the query, in
  descending order, ties broken by insertion order (the sort is stable).
\<close>

definition similarity_search :: "scoring \<Rightarrow> string \<Rightarrow> int \<Rightarrow> entry list \<Rightarrow> entry list" where
  "similarity_search sc q k es = take (nat k) (sort_key (\<lambda>e. - relevance sc q (entry_text e)) es)"

text \<open>
  Modelled from the spec: the value a candidate has for the greedy selection, its relevance
  to the query less its greatest similarity to an entry selected already.
\<close>

definition mmr_objective :: "scoring \<Rightarrow> string \<Rightarrow> entry list \<Rightarrow> entry \<Rightarrow> int" where
  "mmr_objective sc q selected c =
     (case selected of
        [] \<Rightarrow> relevance sc q (entry_text c)
      | s # ss \<Rightarrow> relevance sc q (entry_text c)
                  - fold max (map (\<lambda>x. redundancy sc (entry_text c) (entry_text x)) ss)
                         (redundancy sc (entry_text c) (entry_text s)))"

text \<open>The first candidate of greatest value.\<close>

fun best :: "('a \<Rightarrow> int) \<Rightarrow> 'a \<Rightarrow> 'a list \<Rightarrow> 'a" where
  "best f b [] = b"
| "best f b (c # cs) = (if f b < f c then best f c cs else best f b cs)"

text \<open>
  Modelled from the spec: greedy selection of at most \<open>n\<close> entries of the candidate pool,
  each maximising the objective with respect to the entries selected before it.
\<close>

fun mmr_select :: "(entry list \<Rightarrow> entry \<Rightarrow> int) \<Rightarrow> nat \<Rightarrow> entry list \<Rightarrow> entry list \<Rightarrow> entry list" where
  "mmr_select obj 0 selected pool = selected"
| "mmr_select obj (Suc n) selected [] = selected"
| "mmr_select obj (Suc n) selected (c # cs) =
     (let b = best (obj selected) c cs
      in mmr_select obj n (selected @ [b]) (remove1 b (c # cs)))"

definition max_marginal_relevance_search ::
  "scoring \<Rightarrow> string \<Rightarrow> int \<Rightarrow> int \<Rightarrow> entry list \<Rightarrow> entry list" where
  "max_marginal_relevance_search sc q k fetch_k es =
     mmr_select (mmr_objective sc q) (nat k) [] (similarity_search sc q fetch_k es)"

text \<open>
  A retriever object, as \<open>vectorstore.as_retriever(search_type=..., search_kwargs=...)\<close>
  builds it: the store, the search type and the search arguments \<open>k\<close> and \<open>fetch_k\<close>
  (\<open>None\<close> when the caller gives none). The library allows the search types
  \<open>similarity\<close>, \<open>similarity_score_threshold\<close> and \<open>mmr\<close>; the second needs a score
  threshold among the search arguments, which this program never gives. Both refusals
  are \<open>ValueError\<close>s of the library.
\<close>

record retriever =
  retriever_store :: chroma
  search_type :: string
  search_k :: int
  search_fetch_k :: "int option"

definition quoted :: "string \<Rightarrow> string" where
  "quoted s = CHR 0x27 # s @ [CHR 0x27]"

definition as_retriever :: "chroma \<Rightarrow> string \<Rightarrow> int \<Rightarrow> int option \<Rightarrow> exn + retriever" where
  "as_retriever h st k fk =
     (if st = ''similarity'' \<or> st = ''mmr''
      then Inr \<lparr>retriever_store = h, search_type = st, search_k = k, search_fetch_k = fk\<rparr>
      else if st = ''similarity_score_threshold''
      then Inl (LibraryValueError Score_threshold_not_specified)
      else Inl (LibraryValueError (Search_type_not_allowed st)))"

text \<open>The library's own \<open>fetch_k\<close> when the search arguments give none.\<close>

definition default_fetch_k :: int where
  "default_fetch_k = 20"

text \<open>The search a retriever makes on the entries of its collection.\<close>

definition run_search :: "scoring \<Rightarrow> retriever \<Rightarrow> string \<Rightarrow> entry list \<Rightarrow> entry list" where
  "run_search sc r q es =
     (if search_type r = ''mmr''
      then max_marginal_relevance_search sc q (search_k r)
             (case search_fetch_k r of None \<Rightarrow> default_fetch_k | Some f \<Rightarrow> f) es
      else similarity_search sc q (search_k r) es)"

text \<open>
  \<open>retriever.invoke(query)\<close>: one search of the retriever's collection, recorded in the
  client's \<open>search_log\<close>; the result is the documents of the entries found.
\<close>

definition retriever_invoke ::
  "scoring \<Rightarrow> retriever \<Rightarrow> string \<Rightarrow> chroma_client \<Rightarrow> document list \<times> chroma_client" where
  "retriever_invoke sc r q cl =
     (let name = handle_collection (retriever_store r)
      in (map snd (run_search sc r q (collection_entries cl name)),
          cl\<lparr>search_log := search_log cl @ [(name, q)]\<rparr>))"

text \<open>\<open>RetrievalService.retrieve\<close>; the service's attribute \<open>vectorstore\<close> is the handle \<open>h\<close>.\<close>

definition unknown_strategy_message :: "string \<Rightarrow> string" where
  "unknown_strategy_message strategy =
     ''Unknown strategy: '' @ strategy @ ''. Use '' @ quoted ''similarity'' @ '' or '' @ quoted ''mmr''"

definition retrieve ::
  "scoring \<Rightarrow> chroma \<Rightarrow> string \<Rightarrow> string \<Rightarrow> int \<Rightarrow> runtime \<Rightarrow> (exn + document list) \<times> runtime" where
  "retrieve sc h query strategy k rt =
     (if strategy = ''similarity'' then
        (case as_retriever h ''similarity'' k None of
           Inl e \<Rightarrow> (Inl e, rt)
         | Inr r \<Rightarrow> (let (results, cl) = retriever_invoke sc r query (client rt)
                    in (Inr results, rt\<lparr>client := cl\<rparr>)))
      else if strategy = ''mmr'' then
        (case as_retriever h ''mmr'' k (Some (k * 2)) of
           Inl e \<Rightarrow> (Inl e, rt)
         | Inr r \<Rightarrow> (let (results, cl) = retriever_invoke sc r query (client rt)
                    in (Inr results, rt\<lparr>client := cl\<rparr>)))
      else (Inl (ValueError (unknown_strategy_message strategy)),
            rt\<lparr>logged := logged rt @ [Critical_unknown_strategy strategy]\<rparr>))"

section \<open>DocumentService\<close>

text \<open>
  The external loaders (\<open>PyPDFLoader(path).load()\<close>, \<open>BSHTMLLoader(path,
  open_encoding="latin-1").load()\<close>) either return the documents of a file or raise; the
  text splitter is external as well.
\<close>

record document_env =
  load_pdf_document :: "string \<Rightarrow> exn + document list"
  load_html_document :: "string \<Rightarrow> exn + document list"
  text_splitter :: "int \<Rightarrow> int \<Rightarrow> document list \<Rightarrow> document list"

definition endswith :: "string \<Rightarrow> string \<Rightarrow> bool" where
  "endswith s suf = (length suf \<le> length s \<and> drop (length s - length suf) s = suf)"

text \<open>
  The body of the \<open>try\<close> block for one path: the documents to append and the warning to
  log, or the exception raised.
\<close>

definition load_file :: "document_env \<Rightarrow> string \<Rightarrow> exn + (document list \<times> log_record list)" where
  "load_file env file_path =
     (if endswith file_path ''.pdf'' then
        (case load_pdf_document env file_path of Inl e \<Rightarrow> Inl e | Inr ds \<Rightarrow> Inr (ds, []))
      else if endswith file_path ''.html'' then
        (case load_html_document env file_path of Inl e \<Rightarrow> Inl e | Inr ds \<Rightarrow> Inr (ds, []))
      else Inr ([], [Warning_unsupported_file_type file_path]))"

text \<open>The \<open>for\<close> loop: \<open>except Exception\<close> logs the error and goes on to the next path.\<close>

fun load_loop ::
  "document_env \<Rightarrow> string list \<Rightarrow> document list \<Rightarrow> log_record list \<Rightarrow> document list \<times> log_record list" where
  "load_loop env [] documents lg = (documents, lg)"
| "load_loop env (file_path # rest) documents lg =
     (case load_file env file_path of
        Inr (ds, warnings) \<Rightarrow> load_loop env rest (documents @ ds) (lg @ warnings)
      | Inl e \<Rightarrow> load_loop env rest documents (lg @ [Error_loading_file file_path e]))"

text \<open>The argument is a single path or a list of paths.\<close>

datatype file_paths = Single_path string | Path_list "string list"

definition load_documents :: "document_env \<Rightarrow> file_paths \<Rightarrow> runtime \<Rightarrow> document list \<times> runtime" where
  "load_documents env file_paths rt =
     (let paths = (case file_paths of Single_path p \<Rightarrow> [p] | Path_list ps \<Rightarrow> ps);
          (documents, lg) = load_loop env paths [] (logged rt)
      in (documents, rt\<lparr>logged := lg\<rparr>))"

definition split_documents :: "document_env \<Rightarrow> document list \<Rightarrow> int \<Rightarrow> int \<Rightarrow> document list" where
  "split_documents env documents chunk_size chunk_overlap =
     text_splitter env chunk_size chunk_overlap documents"

section \<open>The LLM factory\<close>

text \<open>
  A chat model as constructed by the factory: model name, temperature and, for the hosted
  providers, the key. The temperature type is left open.
\<close>

datatype 't chat_model =
    ChatGroq string 't string
  | ChatGoogleGenerativeAI string 't string
  | ChatOllama string 't

text \<open>Python's \<open>a or b\<close> on optional strings: \<open>None\<close> and the empty string are false.\<close>

definition truthy :: "string option \<Rightarrow> bool" where
  "truthy v = (case v of None \<Rightarrow> False | Some s \<Rightarrow> s \<noteq> [])"

definition py_or :: "string option \<Rightarrow> string option \<Rightarrow> string option" where
  "py_or a b = (if truthy a then a else b)"

definition groq_key_required :: string where
  "groq_key_required = ''Groq API key is required. Pass api_key or set GROQ_API_KEY env var.''"

definition gemini_key_required :: string where
  "gemini_key_required = ''Gemini API key is required. Pass api_key or set GEMINI_API_KEY env var.''"

definition get_llm ::
  "(string \<rightharpoonup> string) \<Rightarrow> string \<Rightarrow> string \<Rightarrow> 't \<Rightarrow> string option \<Rightarrow> runtime
     \<Rightarrow> (exn + 't chat_model) \<times> runtime" where
  "get_llm environ provider model temperature api_key rt =
     (if provider = ''groq'' then
        (case py_or api_key (environ ''GROQ_API_KEY'') of
           None \<Rightarrow> (Inl (ValueError groq_key_required), rt)
         | Some key \<Rightarrow>
             if key = [] then (Inl (ValueError groq_key_required), rt)
             else (Inr (ChatGroq model temperature key), rt))
      else if provider = ''gemini'' then
        (case py_or (py_or api_key (environ ''GEMINI_API_KEY'')) (environ ''GOOGLE_API_KEY'') of
           None \<Rightarrow> (Inl (ValueError gemini_key_required), rt)
         | Some key \<Rightarrow>
             if key = [] then (Inl (ValueError gemini_key_required), rt)
             else (Inr (ChatGoogleGenerativeAI model temperature key), rt))
      else if provider = ''ollama'' then (Inr (ChatOllama model temperature), rt)
      else (Inl (ValueError (''Unknown provider: '' @ provider)),
            rt\<lparr>logged := logged rt @ [Critical_unknown_provider provider]\<rparr>))"

section \<open>The RAG chain\<close>

text \<open>
  The filled prompt template: the system prompt (\<open>None\<close> is the default text), the context
  and the question. The language model maps a prompt to its answer or raises.
\<close>

record prompt_value =
  prompt_system :: "string option"
  prompt_context :: string
  prompt_question :: string

type_synonym language_model = "prompt_value \<Rightarrow> exn + string"

fun join :: "string \<Rightarrow> string list \<Rightarrow> string" where
  "join sep [] = []"
| "join sep [x] = x"
| "join sep (x # y # ys) = x @ sep @ join sep (y # ys)"

definition format_docs :: "document list \<Rightarrow> string" where
  "format_docs docs = join [CHR 0x0A, CHR 0x0A] (map page_content docs)"

record rag_chain =
  chain_llm :: language_model
  chain_retriever :: retriever
  chain_system_prompt :: "string option"

definition create_rag_chain :: "language_model \<Rightarrow> retriever \<Rightarrow> string option \<Rightarrow> rag_chain" where
  "create_rag_chain llm r system_prompt =
     \<lparr>chain_llm = llm, chain_retriever = r, chain_system_prompt = system_prompt\<rparr>"

text \<open>
  \<open>chain.invoke(question)\<close>: the step \<open>retriever | format_docs\<close> invokes the retriever
  on the question, then the prompt is filled and given to the model.
\<close>

definition chain_invoke ::
  "scoring \<Rightarrow> rag_chain \<Rightarrow> string \<Rightarrow> chroma_client \<Rightarrow> (exn + string) \<times> chroma_client" where
  "chain_invoke sc chain question cl =
     (let (docs, cl1) = retriever_invoke sc (chain_retriever chain) question cl
      in (chain_llm chain \<lparr>prompt_system = chain_system_prompt chain,
                            prompt_context = format_docs docs,
                            prompt_question = question\<rparr>, cl1))"

section \<open>RAGService\<close>

record rag_config =
  config_embedding_model :: string
  chunk_size :: int
  chunk_overlap :: int
  retrieval_k :: int
  retrieval_strategy :: string

text \<open>The defaults of the \<open>RAGConfig\<close> dataclass.\<close>

definition default_config :: rag_config where
  "default_config =
     \<lparr>config_embedding_model = ''intfloat/multilingual-e5-large'',
      chunk_size = 700, chunk_overlap = 100,
      retrieval_k = 4, retrieval_strategy = ''similarity''\<rparr>"

record rag_service =
  config :: rag_config
  session_id :: string
  cached_vectorstore_service :: "vectorstore_service option"
  cached_document_service :: "unit option"

definition new_rag_service :: "rag_config \<Rightarrow> string \<Rightarrow> rag_service" where
  "new_rag_service cfg sid =
     \<lparr>config = cfg, session_id = sid,
      cached_vectorstore_service = None, cached_document_service = None\<rparr>"

text \<open>The collection of a session: \<open>f"session_{self.session_id}"\<close>.\<close>

definition session_collection :: "string \<Rightarrow> string" where
  "session_collection sid = ''session_'' @ sid"

text \<open>
  The \<open>vectorstore_service\<close> property: built on first access with the session's
  collection name, cached afterwards. The service is a shared object: the caller stores
  its new state back with \<open>put_vectorstore_service\<close>.
\<close>

definition vectorstore_service_of :: "rag_service \<Rightarrow> vectorstore_service" where
  "vectorstore_service_of rs =
     (case cached_vectorstore_service rs of
        None \<Rightarrow> new_vectorstore_service (session_collection (session_id rs))
                  (Some (config_embedding_model (config rs)))
      | Some vs \<Rightarrow> vs)"

definition put_vectorstore_service :: "rag_service \<Rightarrow> vectorstore_service \<Rightarrow> rag_service" where
  "put_vectorstore_service rs vs = rs\<lparr>cached_vectorstore_service := Some vs\<rparr>"

text \<open>The value of a call whose result is dropped: \<open>None\<close>, or the exception raised.\<close>

definition returns_none :: "exn + 'a \<Rightarrow> exn + unit" where
  "returns_none r = (case r of Inl e \<Rightarrow> Inl e | Inr x \<Rightarrow> Inr ())"

definition initialize_vectorstore ::
  "rag_service \<Rightarrow> bool \<Rightarrow> runtime \<Rightarrow> (exn + unit) \<times> rag_service \<times> runtime" where
  "initialize_vectorstore rs force_rebuild rt =
     (let vs = vectorstore_service_of rs
      in if force_rebuild \<or> \<not> vs_exists vs
         then (let (made, vs1, rt1) = create_empty_vectorstore vs rt
               in (returns_none made, put_vectorstore_service rs vs1, rt1))
         else (let (made, vs1, rt1) = get_vectorstore vs rt
               in (returns_none made, put_vectorstore_service rs vs1, rt1)))"

definition vectorstore_missing :: string where
  "vectorstore_missing = ''Vector store does not exist. Use initialize_vectorstore() first.''"

text \<open>\<open>RAGService.add_documents\<close>; the result \<open>Inr ()\<close> is Python's \<open>None\<close>.\<close>

definition rag_add_documents ::
  "document_env \<Rightarrow> rag_service \<Rightarrow> string list \<Rightarrow> bool \<Rightarrow> runtime
     \<Rightarrow> (exn + unit) \<times> rag_service \<times> runtime" where
  "rag_add_documents env rs paths force_rebuild rt =
     (if force_rebuild then initialize_vectorstore rs True rt
      else
        (let vs = vectorstore_service_of rs;
             rs0 = put_vectorstore_service rs vs
         in if \<not> vs_exists vs
            then (Inl (ValueError vectorstore_missing), rs0,
                  rt\<lparr>logged := logged rt @ [Critical_vectorstore_missing]\<rparr>)
            else
              (let rs1 = rs0\<lparr>cached_document_service := Some ()\<rparr>;
                   (new_documents, rt1) = load_documents env (Path_list paths) rt;
                   splits = split_documents env new_documents
                              (chunk_size (config rs)) (chunk_overlap (config rs));
                   (added, vs1, rt2) = vs_add_documents vs splits rt1
               in (returns_none added, put_vectorstore_service rs1 vs1, rt2))))"

text \<open>
  \<open>RAGService.query_with_sources\<close>: the retriever is invoked on the question, the
  references are taken from its result, then the chain is built on the same retriever
  and invoked on the question.
\<close>

definition query_with_sources ::
  "scoring \<Rightarrow> rag_service \<Rightarrow> string \<Rightarrow> language_model \<Rightarrow> runtime
     \<Rightarrow> (exn + (string \<times> string list)) \<times> rag_service \<times> runtime" where
  "query_with_sources sc rs question llm rt =
     (let (made, vs1, rt1) = get_vectorstore (vectorstore_service_of rs) rt;
          rs1 = put_vectorstore_service rs vs1
      in case made of
           Inl e \<Rightarrow> (Inl e, rs1, rt1)
         | Inr h \<Rightarrow>
             (case as_retriever h (retrieval_strategy (config rs)) (retrieval_k (config rs)) None of
                Inl e \<Rightarrow> (Inl e, rs1, rt1)
              | Inr r \<Rightarrow>
                  (let (docs, cl1) = retriever_invoke sc r question (client rt1);
                       references = map page_content docs;
                       chain = create_rag_chain llm r None;
                       (answer, cl2) = chain_invoke sc chain question cl1
                   in case answer of
                        Inl e \<Rightarrow> (Inl e, rs1, rt1\<lparr>client := cl2\<rparr>)
                      | Inr a \<Rightarrow> (Inr (a, references), rs1, rt1\<lparr>client := cl2\<rparr>))))"

section \<open>The session registry\<close>

text \<open>The module-level dictionary \<open>_sessions\<close> and the state shared by all sessions.\<close>

record app =
  sessions :: "string \<rightharpoonup> rag_service"
  app_runtime :: runtime

definition new_app :: "(string \<Rightarrow> exn option) \<Rightarrow> app" where
  "new_app rule = \<lparr>sessions = Map.empty, app_runtime = new_runtime rule\<rparr>"

text \<open>
  \<open>get_rag_service\<close>: a new service is registered after its store is initialised; when
  the initialisation raises, nothing is registered.
\<close>

definition get_rag_service :: "string \<Rightarrow> app \<Rightarrow> (exn + rag_service) \<times> app" where
  "get_rag_service sid a =
     (case sessions a sid of
        None \<Rightarrow>
          (let service = new_rag_service default_config sid;
               (made, service1, rt1) = initialize_vectorstore service False (app_runtime a)
           in case made of
                Inl e \<Rightarrow> (Inl e, a\<lparr>app_runtime := rt1\<rparr>)
              | Inr u \<Rightarrow> (Inr service1,
                          a\<lparr>sessions := (sessions a)(sid \<mapsto> service1), app_runtime := rt1\<rparr>))
      | Some service \<Rightarrow> (Inr service, a))"

text \<open>
  An \<open>HTTPException\<close> with its status code and its detail: a fixed text, the text
  \<open>str(e)\<close> of an exception, or that text after \<open>Failed to process documents:\<close>.
\<close>

datatype http_detail = Detail string | Detail_str exn | Detail_failed_to_process exn

datatype http_exception = HTTPException nat http_detail

definition delete_session :: "string \<Rightarrow> app \<Rightarrow> (http_exception + unit) \<times> app" where
  "delete_session sid a =
     (case sessions a sid of
        Some service \<Rightarrow> (Inr (), a\<lparr>sessions := (sessions a)(sid := None)\<rparr>)
      | None \<Rightarrow> (Inl (HTTPException 404 (Detail ''Session not found'')), a))"

text \<open>
  \<open>upload_files\<close>, from the point where the uploaded files are saved: \<open>saved_files\<close>
  are their paths. The response carries the number of documents and of chunks. Any
  exception of the processing is answered with status 500.
\<close>

definition upload_files ::
  "document_env \<Rightarrow> string \<Rightarrow> string list \<Rightarrow> app \<Rightarrow> (http_exception + (nat \<times> nat)) \<times> app" where
  "upload_files env sid saved_files a =
     (if saved_files = []
      then (Inl (HTTPException 400 (Detail ''No valid PDF or HTML files provided'')), a)
      else
        (case get_rag_service sid a of
           (Inl e, a1) \<Rightarrow> (Inl (HTTPException 500 (Detail_failed_to_process e)), a1)
         | (Inr service, a1) \<Rightarrow>
             (let (documents, rt1) = load_documents env (Path_list saved_files) (app_runtime a1);
                  splits = split_documents env documents
                             (chunk_size (config service)) (chunk_overlap (config service));
                  (added, vs1, rt2) = vs_add_documents (vectorstore_service_of service) splits rt1;
                  a2 = a1\<lparr>sessions := (sessions a1)(sid \<mapsto>
                            (put_vectorstore_service service vs1)\<lparr>cached_document_service := Some ()\<rparr>),
                          app_runtime := rt2\<rparr>
              in case added of
                   Inl e \<Rightarrow> (Inl (HTTPException 500 (Detail_failed_to_process e)), a2)
                 | Inr ids \<Rightarrow> (Inr (length documents, length splits), a2))))"

text \<open>
  \<open>ask_question\<close>: \<open>generate\<close> runs the chat model the factory returns. A
  \<open>ValueError\<close> is answered with status 400, any other exception with status 500.
\<close>

record 't question_request =
  request_session_id :: string
  request_question :: string
  request_provider :: string
  request_model :: string
  request_api_key :: string
  request_temperature :: 't

definition http_of_exn :: "exn \<Rightarrow> http_exception" where
  "http_of_exn e =
     (case e of
        ValueError m \<Rightarrow> HTTPException 400 (Detail_str e)
      | LibraryValueError f \<Rightarrow> HTTPException 400 (Detail_str e)
      | OtherException m \<Rightarrow> HTTPException 500 (Detail_str e))"

definition ask_question ::
  "scoring \<Rightarrow> (string \<rightharpoonup> string) \<Rightarrow> ('t chat_model \<Rightarrow> language_model) \<Rightarrow> 't question_request \<Rightarrow> app
     \<Rightarrow> (http_exception + (string \<times> string list)) \<times> app" where
  "ask_question sc environ generate request a =
     (let sid = request_session_id request
      in case get_rag_service sid a of
           (Inl e, a1) \<Rightarrow> (Inl (http_of_exn e), a1)
         | (Inr service, a1) \<Rightarrow>
             (let (made, rt1) = get_llm environ (request_provider request) (request_model request)
                                  (request_temperature request) (Some (request_api_key request))
                                  (app_runtime a1)
              in case made of
                   Inl e \<Rightarrow> (Inl (http_of_exn e), a1\<lparr>app_runtime := rt1\<rparr>)
                 | Inr llm \<Rightarrow>
                     (let (result, service1, rt2) =
                            query_with_sources sc service (request_question request) (generate llm) rt1;
                          a2 = a1\<lparr>sessions := (sessions a1)(sid \<mapsto> service1), app_runtime := rt2\<rparr>
                      in case result of
                           Inl e \<Rightarrow> (Inl (http_of_exn e), a2)
                         | Inr r \<Rightarrow> (Inr r, a2))))"

section \<open>Call sequences on a VectorStoreService\<close>

text \<open>
  The public members of the service, as a caller may use them in any order; a call that
  raises leaves the state it has reached. \<open>initializes\<close> tells the calls that construct
  the store of a service whose collection name the client accepts:
  \<open>create_empty_vectorstore\<close>, the \<open>vectorstore\<close> property and \<open>add_documents\<close> (which
  reads the property) always do, \<open>create_from_documents\<close> when it is given at least one
  document, since the library raises on an empty list before the store is assigned.
\<close>

datatype vs_call =
    Call_embeddings
  | Call_vectorstore
  | Call_exists
  | Call_create_empty_vectorstore
  | Call_create_from_documents "document list"
  | Call_add_documents "document list"

fun vs_call_step :: "vs_call \<Rightarrow> vectorstore_service \<times> runtime \<Rightarrow> vectorstore_service \<times> runtime" where
  "vs_call_step Call_embeddings (vs, rt) = (snd (get_embeddings vs), rt)"
| "vs_call_step Call_vectorstore (vs, rt) = snd (get_vectorstore vs rt)"
| "vs_call_step Call_exists (vs, rt) = (vs, rt)"
| "vs_call_step Call_create_empty_vectorstore (vs, rt) = snd (create_empty_vectorstore vs rt)"
| "vs_call_step (Call_create_from_documents docs) (vs, rt) = snd (create_from_documents vs docs rt)"
| "vs_call_step (Call_add_documents docs) (vs, rt) = snd (vs_add_documents vs docs rt)"

fun initializes :: "vs_call \<Rightarrow> bool" where
  "initializes Call_embeddings = False"
| "initializes Call_exists = False"
| "initializes (Call_create_from_documents docs) = (docs \<noteq> [])"
| "initializes c = True"

section \<open>What one path contributes to a load\<close>

text \<open>
  Stated from the loaders, apart from the code of \<open>load_documents\<close>: the documents a path
  contributes to the result (those its loader returns; none when the loader raises or
  the extension is not supported) and the records it adds to the log (the error when the
  loader raises, the warning when the extension is not supported).
\<close>

definition loaded_documents :: "document_env \<Rightarrow> string \<Rightarrow> document list" where
  "loaded_documents env file_path =
     (if endswith file_path ''.pdf'' then
        (case load_pdf_document env file_path of Inl e \<Rightarrow> [] | Inr ds \<Rightarrow> ds)
      else if endswith file_path ''.html'' then
        (case load_html_document env file_path of Inl e \<Rightarrow> [] | Inr ds \<Rightarrow> ds)
      else [])"

definition load_records :: "document_env \<Rightarrow> string \<Rightarrow> log_record list" where
  "load_records env file_path =
     (if endswith file_path ''.pdf'' then
        (case load_pdf_document env file_path of
           Inl e \<Rightarrow> [Error_loading_file file_path e] | Inr ds \<Rightarrow> [])
      else if endswith file_path ''.html'' then
        (case load_html_document env file_path of
           Inl e \<Rightarrow> [Error_loading_file file_path e] | Inr ds \<Rightarrow> [])
      else [Warning_unsupported_file_type file_path])"

text \<open>A path is skipped when its extension is not supported or its loader raises.\<close>

definition skipped :: "document_env \<Rightarrow> string \<Rightarrow> bool" where
  "skipped env file_path =
     (if endswith file_path ''.pdf'' then isl (load_pdf_document env file_path)
      else if endswith file_path ''.html'' then isl (load_html_document env file_path)
      else True)"

section \<open>Example data\<close>

text \<open>
  A rule for collection names, for examples: it accepts the names of 3 to 63 letters,
  digits, underscores and hyphens that begin and end with a letter or a digit, and
  refuses every other name.
\<close>

definition alnum :: "char \<Rightarrow> bool" where
  "alnum c = (c \<in> set ''abcdefghijklmnopqrstuvwxyzABCDEFGHIJKLMNOPQRSTUVWXYZ0123456789'')"

definition example_rule :: "string \<Rightarrow> exn option" where
  "example_rule name =
     (if 3 \<le> length name \<and> length name \<le> 63
         \<and> list_all (\<lambda>c. alnum c \<or> c = CHR ''_'' \<or> c = CHR ''-'') name
         \<and> list_all alnum (take 1 name) \<and> list_all alnum (take 1 (rev name))
      then None
      else Some (ValueError (''Invalid collection name: '' @ name)))"

text \<open>
  An environment for examples: the loaders fail on \<open>corrupt.pdf\<close> and
  \<open>corrupt.html\<close> only, and the splitter keeps the documents as they are.
\<close>

definition example_env :: document_env where
  "example_env =
     \<lparr>load_pdf_document = (\<lambda>p. if p = ''corrupt.pdf'' then Inl (OtherException ''bad pdf'')
                                else Inr [\<lparr>page_content = p, metadata = []\<rparr>]),
      load_html_document = (\<lambda>p. if p = ''corrupt.html'' then Inl (OtherException ''bad html'')
                                 else Inr [\<lparr>page_content = p, metadata = []\<rparr>]),
      text_splitter = (\<lambda>size overlap ds. ds)\<rparr>"


text \<open>Scores, entries and a runtime for examples of retrieval.\<close>

definition example_scoring :: scoring where
  "example_scoring =
     \<lparr>relevance = (\<lambda>q t. int (length t)),
      redundancy = (\<lambda>t u. if take 1 t = take 1 u then 10 else 0)\<rparr>"

definition example_entries :: "entry list" where
  "example_entries =
     [(0, \<lparr>page_content = ''xxx'', metadata = []\<rparr>),
      (1, \<lparr>page_content = ''z'', metadata = []\<rparr>),
      (2, \<lparr>page_content = ''xxxx'', metadata = []\<rparr>),
      (3, \<lparr>page_content = ''yy'', metadata = []\<rparr>),
      (4, \<lparr>page_content = ''y'', metadata = []\<rparr>)]"

definition example_runtime :: runtime where
  "example_runtime =
     \<lparr>client = \<lparr>collections = [''session_s1'' \<mapsto> example_entries], next_id = 5,
                 search_log = [], name_error = example_rule\<rparr>,
      logged = []\<rparr>"

section \<open>Well-formed registries\<close>

text \<open>
  A registered service is the one \<open>get_rag_service\<close> built for its key: it carries the
  key as its session id, and its vector store service is cached, has been initialised and
  works on the collection of that session. Every operation of the application keeps the
  registry in this form, starting from the empty one.
\<close>

definition session_ok :: "string \<Rightarrow> rag_service \<Rightarrow> bool" where
  "session_ok sid s =
     (session_id s = sid \<and>
      (case cached_vectorstore_service s of
         None \<Rightarrow> False
       | Some vs \<Rightarrow> collection_name vs = session_collection sid
                   \<and> cached_vectorstore vs = Some (Chroma (session_collection sid))))"

definition registry_ok :: "app \<Rightarrow> bool" where
  "registry_ok a = (\<forall>sid s. sessions a sid = Some s \<longrightarrow> session_ok sid s)"

section \<open>An example application\<close>

text \<open>
  A request, a model that answers with the context it is given, and an application in
  which session \<open>B\<close> holds one document, for examples.
\<close>

definition example_request :: "nat question_request" where
  "example_request =
     \<lparr>request_session_id = ''B'', request_question = ''q'', request_provider = ''ollama'',
      request_model = ''m'', request_api_key = [], request_temperature = 0\<rparr>"

definition example_generate :: "nat chat_model \<Rightarrow> language_model" where
  "example_generate m p = Inr (prompt_context p)"

definition example_app :: app where
  "example_app = snd (upload_files example_env ''B'' [''b.pdf''] (new_app example_rule))"

section \<open>Verified properties\<close>

subsection \<open>The vector database\<close>

lemma chroma_init_simps:
  "fst (chroma_init name cl) = (case name_error cl name of Some e \<Rightarrow> Inl e | None \<Rightarrow> Inr (Chroma name))"
  "collection_entries (snd (chroma_init name cl)) n = collection_entries cl n"
  "next_id (snd (chroma_init name cl)) = next_id cl"
  "search_log (snd (chroma_init name cl)) = search_log cl"
  "name_error (snd (chroma_init name cl)) = name_error cl"
  by (simp_all add: chroma_init_def collection_entries_def split: option.splits)

lemma chroma_add_documents_simps:
  "fst (chroma_add_documents h docs cl) =
     (if docs = [] then Inl (LibraryValueError Empty_insert)
      else Inr [next_id cl ..< next_id cl + length docs])"
  "collection_entries (snd (chroma_add_documents h docs cl)) n =
     (if n = handle_collection h \<and> docs \<noteq> []
      then collection_entries cl n @ zip [next_id cl ..< next_id cl + length docs] docs
      else collection_entries cl n)"
  "next_id (snd (chroma_add_documents h docs cl)) = next_id cl + length docs"
  "search_log (snd (chroma_add_documents h docs cl)) = search_log cl"
  "name_error (snd (chroma_add_documents h docs cl)) = name_error cl"
  by (simp_all add: chroma_add_documents_def collection_entries_def Let_def)

lemma chroma_from_documents_simps:
  "fst (chroma_from_documents docs name cl) =
     (case name_error cl name of
        Some e \<Rightarrow> Inl e
      | None \<Rightarrow> if docs = [] then Inl (LibraryValueError Empty_insert) else Inr (Chroma name))"
  "collection_entries (snd (chroma_from_documents docs name cl)) n =
     (if n = name \<and> docs \<noteq> [] \<and> name_error cl name = None
      then collection_entries cl n @ zip [next_id cl ..< next_id cl + length docs] docs
      else collection_entries cl n)"
  "search_log (snd (chroma_from_documents docs name cl)) = search_log cl"
  "name_error (snd (chroma_from_documents docs name cl)) = name_error cl"
  by (simp_all add: chroma_from_documents_def chroma_init_def chroma_add_documents_def
        collection_entries_def Let_def split: option.splits)

subsection \<open>The vector store service\<close>

lemma get_embeddings_store [simp]:
  "cached_vectorstore (snd (get_embeddings vs)) = cached_vectorstore vs"
  "collection_name (snd (get_embeddings vs)) = collection_name vs"
  by (simp_all add: get_embeddings_def Let_def split: option.splits)

lemma create_empty_vectorstore_simps:
  "fst (create_empty_vectorstore vs rt) = fst (chroma_init (collection_name vs) (client rt))"
  "cached_vectorstore (fst (snd (create_empty_vectorstore vs rt))) =
     (case name_error (client rt) (collection_name vs) of
        Some e \<Rightarrow> cached_vectorstore vs
      | None \<Rightarrow> Some (Chroma (collection_name vs)))"
  "collection_name (fst (snd (create_empty_vectorstore vs rt))) = collection_name vs"
  "client (snd (snd (create_empty_vectorstore vs rt))) = snd (chroma_init (collection_name vs) (client rt))"
  "logged (snd (snd (create_empty_vectorstore vs rt))) = logged rt"
  by (simp_all add: create_empty_vectorstore_def chroma_init_def split_def Let_def
        split: option.splits sum.splits)

lemma get_vectorstore_cached:
  "cached_vectorstore vs = Some h \<Longrightarrow> get_vectorstore vs rt = (Inr h, vs, rt)"
  by (simp add: get_vectorstore_def)

lemma get_vectorstore_fresh:
  "cached_vectorstore vs = None \<Longrightarrow> get_vectorstore vs rt = create_empty_vectorstore vs rt"
  by (simp add: get_vectorstore_def)

lemma get_vectorstore_simps:
  "cached_vectorstore (fst (snd (get_vectorstore vs rt))) =
     (case cached_vectorstore vs of
        Some h \<Rightarrow> Some h
      | None \<Rightarrow> (case name_error (client rt) (collection_name vs) of
                   Some e \<Rightarrow> None
                 | None \<Rightarrow> Some (Chroma (collection_name vs))))"
  "collection_name (fst (snd (get_vectorstore vs rt))) = collection_name vs"
  "name_error (client (snd (snd (get_vectorstore vs rt)))) = name_error (client rt)"
  "collection_entries (client (snd (snd (get_vectorstore vs rt)))) n = collection_entries (client rt) n"
  "search_log (client (snd (snd (get_vectorstore vs rt)))) = search_log (client rt)"
  "next_id (client (snd (snd (get_vectorstore vs rt)))) = next_id (client rt)"
  "logged (snd (snd (get_vectorstore vs rt))) = logged rt"
  by (cases "cached_vectorstore vs";
      simp add: get_vectorstore_def create_empty_vectorstore_simps chroma_init_simps
        split: option.splits)+

lemma vs_add_documents_simps:
  "cached_vectorstore (fst (snd (vs_add_documents vs docs rt)))
     = cached_vectorstore (fst (snd (get_vectorstore vs rt)))"
  "collection_name (fst (snd (vs_add_documents vs docs rt))) = collection_name vs"
  "name_error (client (snd (snd (vs_add_documents vs docs rt)))) = name_error (client rt)"
  "search_log (client (snd (snd (vs_add_documents vs docs rt)))) = search_log (client rt)"
proof -
  obtain made vs1 rt1 where g: "get_vectorstore vs rt = (made, vs1, rt1)"
    by (cases "get_vectorstore vs rt") auto
  have v: "vs1 = fst (snd (get_vectorstore vs rt))" and r: "rt1 = snd (snd (get_vectorstore vs rt))"
    by (simp_all add: g)
  have n: "name_error (client rt1) = name_error (client rt)"
    and c: "collection_name vs1 = collection_name vs"
    and s: "search_log (client rt1) = search_log (client rt)"
    unfolding v r by (simp_all add: get_vectorstore_simps)
  show "cached_vectorstore (fst (snd (vs_add_documents vs docs rt)))
     = cached_vectorstore (fst (snd (get_vectorstore vs rt)))"
    by (cases made) (simp_all add: vs_add_documents_def g split_def Let_def)
  show "collection_name (fst (snd (vs_add_documents vs docs rt))) = collection_name vs"
    using c by (cases made) (simp_all add: vs_add_documents_def g split_def Let_def)
  show "name_error (client (snd (snd (vs_add_documents vs docs rt)))) = name_error (client rt)"
    using n by (cases made) (simp_all add: vs_add_documents_def g split_def Let_def chroma_add_documents_simps)
  show "search_log (client (snd (snd (vs_add_documents vs docs rt)))) = search_log (client rt)"
    using s by (cases made) (simp_all add: vs_add_documents_def g split_def Let_def chroma_add_documents_simps)
qed

lemma empty_docs_Nil [simp]: "empty_docs [] = []"
  by (simp add: empty_docs_def)

lemma create_from_documents_simps:
  "fst (create_from_documents vs docs rt) = fst (chroma_from_documents docs (collection_name vs) (client rt))"
  "cached_vectorstore (fst (snd (create_from_documents vs docs rt))) =
     (if docs \<noteq> [] \<and> name_error (client rt) (collection_name vs) = None
      then Some (Chroma (collection_name vs)) else cached_vectorstore vs)"
  "collection_name (fst (snd (create_from_documents vs docs rt))) = collection_name vs"
  "client (snd (snd (create_from_documents vs docs rt)))
     = snd (chroma_from_documents docs (collection_name vs) (client rt))"
  "logged (snd (snd (create_from_documents vs docs rt))) =
     logged rt @ (if empty_docs docs = [] then []
                  else [Warning_empty_content (length (empty_docs docs)) (take 10 (empty_docs docs))])"
  by (auto simp add: create_from_documents_def chroma_from_documents_simps split_def Let_def
        split: option.splits sum.splits)

lemma vs_call_step_exists:
  "vs_exists (fst (vs_call_step c (vs, rt))) =
     (vs_exists vs \<or> (name_error (client rt) (collection_name vs) = None \<and> initializes c))"
  by (cases c)
     (auto simp: vs_exists_def get_vectorstore_simps create_empty_vectorstore_simps
        create_from_documents_simps vs_add_documents_simps split: option.splits)

lemma vs_call_step_keeps:
  "collection_name (fst (vs_call_step c (vs, rt))) = collection_name vs"
  "name_error (client (snd (vs_call_step c (vs, rt)))) = name_error (client rt)"
  by (cases c;
      simp add: get_vectorstore_simps create_empty_vectorstore_simps chroma_init_simps
        create_from_documents_simps chroma_from_documents_simps vs_add_documents_simps)+

lemma fold_vs_call_step_exists:
  "vs_exists (fst (fold vs_call_step calls s)) =
     (vs_exists (fst s)
      \<or> (name_error (client (snd s)) (collection_name (fst s)) = None \<and> list_ex initializes calls))"
proof (induction calls arbitrary: s)
  case Nil
  show ?case by simp
next
  case (Cons c calls)
  obtain vs rt where s: "s = (vs, rt)" by (cases s)
  show ?case
    using Cons.IH [of "vs_call_step c (vs, rt)"] vs_call_step_exists [of c vs rt]
      vs_call_step_keeps [of c vs rt]
    by (auto simp: s)
qed

lemma example_rule_accepts:
  "example_rule ''session_s1'' = None"
  "example_rule ''session_A'' = None"
  "example_rule ''session_B'' = None"
  by (simp_all add: example_rule_def alnum_def)

text \<open>
  C6: \<open>exists()\<close> is true exactly when the service has a store assigned. It is false on a
  freshly constructed service. After any sequence of calls on a fresh service it is true
  if and only if the client accepts the collection name and one of the calls was one that
  constructs the store. Right after \<open>create_empty_vectorstore\<close> has returned it is
  true, and the collection holds the entries it held before the call: none, when it held
  none. When the call raises instead, the name being refused, it stays false.
\<close>

theorem exists_iff_initialized:
  "(vs_exists (fst (fold vs_call_step calls (new_vectorstore_service name model, rt)))
      = (name_error (client rt) name = None \<and> list_ex initializes calls))
   \<and> \<not> vs_exists (new_vectorstore_service name model)
   \<and> (case create_empty_vectorstore (new_vectorstore_service name model) rt of
        (made, vs, rt') \<Rightarrow>
          (case name_error (client rt) name of
             None \<Rightarrow> made = Inr (Chroma name) \<and> vs_exists vs
           | Some e \<Rightarrow> made = Inl e \<and> \<not> vs_exists vs)
          \<and> collection_entries (client rt') name = collection_entries (client rt) name)"
proof -
  let ?vs = "new_vectorstore_service name model"
  have fresh: "\<not> vs_exists ?vs"
    by (simp add: vs_exists_def new_vectorstore_service_def)
  have nm: "collection_name ?vs = name" by (simp add: new_vectorstore_service_def)
  have run: "vs_exists (fst (fold vs_call_step calls (?vs, rt)))
      = (name_error (client rt) name = None \<and> list_ex initializes calls)"
    using fold_vs_call_step_exists [of calls "(?vs, rt)"] fresh by (simp add: nm)
  obtain made vs rt' where c: "create_empty_vectorstore ?vs rt = (made, vs, rt')"
    by (cases "create_empty_vectorstore ?vs rt") auto
  have m: "made = fst (create_empty_vectorstore ?vs rt)"
    and v: "vs = fst (snd (create_empty_vectorstore ?vs rt))"
    and r: "rt' = snd (snd (create_empty_vectorstore ?vs rt))"
    by (simp_all add: c)
  have cv: "cached_vectorstore ?vs = None" by (simp add: new_vectorstore_service_def)
  have made: "case name_error (client rt) name of
             None \<Rightarrow> made = Inr (Chroma name) \<and> vs_exists vs
           | Some e \<Rightarrow> made = Inl e \<and> \<not> vs_exists vs"
    unfolding m v
    by (simp add: create_empty_vectorstore_simps chroma_init_simps nm cv vs_exists_def
          split: option.splits)
  have entries: "collection_entries (client rt') name = collection_entries (client rt) name"
    unfolding r by (simp add: create_empty_vectorstore_simps chroma_init_simps)
  from run fresh made entries show ?thesis by (simp add: c)
qed

theorem exists_iff_initialized_witness:
  "vs_exists (fst (fold vs_call_step [Call_exists, Call_create_empty_vectorstore]
       (new_vectorstore_service ''session_s1'' None, new_runtime example_rule)))
   \<and> \<not> vs_exists (fst (fold vs_call_step [Call_embeddings, Call_create_from_documents []]
       (new_vectorstore_service ''session_s1'' None, new_runtime example_rule)))
   \<and> \<not> vs_exists (fst (fold vs_call_step [Call_create_empty_vectorstore]
       (new_vectorstore_service ''c'' None, new_runtime example_rule)))
   \<and> (case create_empty_vectorstore (new_vectorstore_service ''session_s1'' None)
             (new_runtime example_rule) of
        (made, vs, rt') \<Rightarrow>
          made = Inr (Chroma ''session_s1'') \<and> vs_exists vs
          \<and> collection_entries (client rt') ''session_s1'' = [])"
proof -
  have n: "name_error (client (new_runtime example_rule)) = example_rule"
    "collection_entries (client (new_runtime example_rule)) ''session_s1'' = []"
    by (simp_all add: new_runtime_def new_client_def collection_entries_def)
  have c: "example_rule ''c'' \<noteq> None" by (simp add: example_rule_def)
  show ?thesis
    using exists_iff_initialized [of "[Call_exists, Call_create_empty_vectorstore]"
        "''session_s1''" None "new_runtime example_rule"]
      exists_iff_initialized [of "[Call_embeddings, Call_create_from_documents []]"
        "''session_s1''" None "new_runtime example_rule"]
      exists_iff_initialized [of "[Call_create_empty_vectorstore]"
        "''c''" None "new_runtime example_rule"]
      c
    by (simp add: n example_rule_accepts split_def)
qed

text \<open>
  C2 (the code departs from the claim): \<open>add_documents\<close> on a service whose store was
  never created does not report that. The \<open>vectorstore\<close> property creates the store
  silently: when the client accepts the collection name, the service has a store
  afterwards, and a non-empty list of documents is inserted after the entries the
  collection holds and their identifiers are returned. The only exceptions are the
  library's own, for an empty list of documents or a name the client refuses.
\<close>

theorem add_documents_creates_missing_store:
  "case vs_add_documents (new_vectorstore_service name model) docs rt of
     (result, vs', rt') \<Rightarrow>
       (case name_error (client rt) name of
          Some e \<Rightarrow> result = Inl e \<and> \<not> vs_exists vs'
        | None \<Rightarrow>
            vs_exists vs'
            \<and> (if docs = []
               then result = Inl (LibraryValueError Empty_insert)
                    \<and> collection_entries (client rt') name = collection_entries (client rt) name
               else result = Inr [next_id (client rt) ..< next_id (client rt) + length docs]
                    \<and> collection_entries (client rt') name
                        = collection_entries (client rt) name
                          @ zip [next_id (client rt) ..< next_id (client rt) + length docs] docs))"
  by (simp add: vs_add_documents_def get_vectorstore_def create_empty_vectorstore_def
        new_vectorstore_service_def get_embeddings_def chroma_init_def chroma_add_documents_def
        vs_exists_def collection_entries_def split_def Let_def split: option.splits)

theorem add_documents_creates_missing_store_witness:
  "case vs_add_documents (new_vectorstore_service ''session_s1'' None)
          [\<lparr>page_content = ''a'', metadata = []\<rparr>] (new_runtime example_rule) of
     (result, vs', rt') \<Rightarrow>
       result = Inr [0] \<and> vs_exists vs'
       \<and> collection_entries (client rt') ''session_s1'' = [(0, \<lparr>page_content = ''a'', metadata = []\<rparr>)]"
proof -
  have n: "name_error (client (new_runtime example_rule)) = example_rule"
    "next_id (client (new_runtime example_rule)) = 0"
    "collection_entries (client (new_runtime example_rule)) ''session_s1'' = []"
    by (simp_all add: new_runtime_def new_client_def collection_entries_def)
  show ?thesis
    using add_documents_creates_missing_store [where name = "''session_s1''" and model = None
        and docs = "[\<lparr>page_content = ''a'', metadata = []\<rparr>]" and rt = "new_runtime example_rule"]
    by (simp add: n example_rule_accepts split: prod.splits)
qed

subsection \<open>Chunks with empty text\<close>







lemma new_runtime_simps:
  "name_error (client (new_runtime rule)) = rule"
  "next_id (client (new_runtime rule)) = 0"
  "collection_entries (client (new_runtime rule)) n = []"
  "search_log (client (new_runtime rule)) = []"
  "logged (new_runtime rule) = []"
  by (simp_all add: new_runtime_def new_client_def collection_entries_def)





subsection \<open>The retrieval service\<close>

lemma sublist_unknown_strategy_message:
  "sublist strategy (unknown_strategy_message strategy)
   \<and> sublist (quoted ''similarity'') (unknown_strategy_message strategy)
   \<and> sublist (quoted ''mmr'') (unknown_strategy_message strategy)"
proof -
  have a: "sublist strategy (unknown_strategy_message strategy)"
    unfolding unknown_strategy_message_def sublist_def by blast
  have b: "sublist (quoted ''similarity'') (unknown_strategy_message strategy)"
    unfolding unknown_strategy_message_def sublist_def
    by (rule exI [of _ "''Unknown strategy: '' @ strategy @ ''. Use ''"],
        rule exI [of _ "'' or '' @ quoted ''mmr''"]) simp
  have c: "sublist (quoted ''mmr'') (unknown_strategy_message strategy)"
    unfolding unknown_strategy_message_def sublist_def
    by (rule exI [of _ "''Unknown strategy: '' @ strategy @ ''. Use '' @ quoted ''similarity'' @ '' or ''"],
        rule exI [of _ "[]"]) simp
  from a b c show ?thesis by simp
qed

text \<open>
  C5: for a strategy other than \<open>similarity\<close> and \<open>mmr\<close>, \<open>retrieve\<close> raises the
  \<open>ValueError\<close> whose message contains the given strategy and the two valid ones, each
  in quotes. The only effect is the CRITICAL log record: the client of the vector database
  is left as it was, so no search has been made.
\<close>

theorem retrieve_unknown_strategy:
  assumes "strategy \<noteq> ''similarity''" and "strategy \<noteq> ''mmr''"
  shows "retrieve sc h query strategy k rt =
           (Inl (ValueError (unknown_strategy_message strategy)),
            rt\<lparr>logged := logged rt @ [Critical_unknown_strategy strategy]\<rparr>)
         \<and> client (snd (retrieve sc h query strategy k rt)) = client rt
         \<and> sublist strategy (unknown_strategy_message strategy)
         \<and> sublist (quoted ''similarity'') (unknown_strategy_message strategy)
         \<and> sublist (quoted ''mmr'') (unknown_strategy_message strategy)"
  using assms sublist_unknown_strategy_message [of strategy]
  by (simp add: retrieve_def)

theorem retrieve_unknown_strategy_witness:
  "fst (retrieve example_scoring (Chroma ''session_s1'') ''q'' ''bogus'' 4 (new_runtime example_rule))
     = Inl (ValueError (''Unknown strategy: bogus. Use 'similarity' or 'mmr'' @ [CHR 0x27]))
   \<and> search_log (client (snd (retrieve example_scoring (Chroma ''session_s1'') ''q'' ''bogus'' 4
          (new_runtime example_rule)))) = []"
  using retrieve_unknown_strategy [of "''bogus''" example_scoring
      "Chroma ''session_s1''" "''q''" 4 "new_runtime example_rule"]
  by (simp add: unknown_strategy_message_def quoted_def new_runtime_simps)

subsection \<open>The LLM factory\<close>

lemma truthy_py_or: "truthy (py_or a b) = (truthy a \<or> truthy b)"
  by (simp add: py_or_def)

text \<open>
  C9: \<open>get_llm\<close> raises \<open>ValueError("Unknown provider: ...")\<close>, naming the provider,
  for every provider other than \<open>groq\<close>, \<open>gemini\<close> and \<open>ollama\<close>. For \<open>groq\<close> it
  raises the missing-key error exactly when neither \<open>api_key\<close> nor the variable
  \<open>GROQ_API_KEY\<close> holds a non-empty string, and for \<open>gemini\<close> exactly when neither
  \<open>api_key\<close> nor \<open>GEMINI_API_KEY\<close> nor \<open>GOOGLE_API_KEY\<close> does; otherwise it returns
  the provider's chat model with the first non-empty of these as its key. For \<open>ollama\<close>
  it returns the local model whatever the key and the environment are.
\<close>

theorem get_llm_resolution:
  "(provider \<noteq> ''groq'' \<and> provider \<noteq> ''gemini'' \<and> provider \<noteq> ''ollama'' \<longrightarrow>
      fst (get_llm environ provider model temperature api_key rt)
        = Inl (ValueError (''Unknown provider: '' @ provider)))
   \<and> (fst (get_llm environ ''groq'' model temperature api_key rt) =
        (if truthy api_key \<or> truthy (environ ''GROQ_API_KEY'')
         then Inr (ChatGroq model temperature (the (py_or api_key (environ ''GROQ_API_KEY''))))
         else Inl (ValueError groq_key_required)))
   \<and> (fst (get_llm environ ''gemini'' model temperature api_key rt) =
        (if truthy api_key \<or> truthy (environ ''GEMINI_API_KEY'') \<or> truthy (environ ''GOOGLE_API_KEY'')
         then Inr (ChatGoogleGenerativeAI model temperature
                (the (py_or (py_or api_key (environ ''GEMINI_API_KEY'')) (environ ''GOOGLE_API_KEY''))))
         else Inl (ValueError gemini_key_required)))
   \<and> fst (get_llm environ ''ollama'' model temperature api_key rt) = Inr (ChatOllama model temperature)"
proof -
  have unknown: "provider \<noteq> ''groq'' \<and> provider \<noteq> ''gemini'' \<and> provider \<noteq> ''ollama'' \<longrightarrow>
      fst (get_llm environ provider model temperature api_key rt)
        = Inl (ValueError (''Unknown provider: '' @ provider))"
    by (simp add: get_llm_def)
  have groq: "fst (get_llm environ ''groq'' model temperature api_key rt) =
        (if truthy api_key \<or> truthy (environ ''GROQ_API_KEY'')
         then Inr (ChatGroq model temperature (the (py_or api_key (environ ''GROQ_API_KEY''))))
         else Inl (ValueError groq_key_required))"
    using truthy_py_or [of api_key "environ ''GROQ_API_KEY''"]
    by (cases "py_or api_key (environ ''GROQ_API_KEY'')")
       (auto simp add: get_llm_def truthy_def)
  have gemini: "fst (get_llm environ ''gemini'' model temperature api_key rt) =
        (if truthy api_key \<or> truthy (environ ''GEMINI_API_KEY'') \<or> truthy (environ ''GOOGLE_API_KEY'')
         then Inr (ChatGoogleGenerativeAI model temperature
                (the (py_or (py_or api_key (environ ''GEMINI_API_KEY'')) (environ ''GOOGLE_API_KEY''))))
         else Inl (ValueError gemini_key_required))"
    using truthy_py_or [of "py_or api_key (environ ''GEMINI_API_KEY'')" "environ ''GOOGLE_API_KEY''"]
      truthy_py_or [of api_key "environ ''GEMINI_API_KEY''"]
    by (cases "py_or (py_or api_key (environ ''GEMINI_API_KEY'')) (environ ''GOOGLE_API_KEY'')")
       (auto simp add: get_llm_def truthy_def)
  have ollama: "fst (get_llm environ ''ollama'' model temperature api_key rt) = Inr (ChatOllama model temperature)"
    by (simp add: get_llm_def)
  from unknown groq gemini ollama show ?thesis by blast
qed

theorem get_llm_resolution_witness:
  "fst (get_llm Map.empty ''openai'' ''gpt'' (0::nat) (Some ''k'') (new_runtime example_rule))
     = Inl (ValueError ''Unknown provider: openai'')
   \<and> fst (get_llm Map.empty ''groq'' ''m'' (0::nat) None (new_runtime example_rule)) = Inl (ValueError groq_key_required)
   \<and> fst (get_llm Map.empty ''groq'' ''m'' (0::nat) (Some ''k'') (new_runtime example_rule)) = Inr (ChatGroq ''m'' 0 ''k'')
   \<and> fst (get_llm [''GOOGLE_API_KEY'' \<mapsto> ''g''] ''gemini'' ''m'' (0::nat) (Some []) (new_runtime example_rule))
       = Inr (ChatGoogleGenerativeAI ''m'' 0 ''g'')"
  using get_llm_resolution [of "''openai''" Map.empty "''gpt''" "0::nat" "Some ''k''" "new_runtime example_rule"]
    get_llm_resolution [of "''x''" Map.empty "''m''" "0::nat" None "new_runtime example_rule"]
    get_llm_resolution [of "''x''" Map.empty "''m''" "0::nat" "Some ''k''" "new_runtime example_rule"]
    get_llm_resolution [of "''x''" "[''GOOGLE_API_KEY'' \<mapsto> ''g'']" "''m''" "0::nat" "Some []" "new_runtime example_rule"]
  by (simp add: truthy_def py_or_def)

subsection \<open>Retrieval by maximum marginal relevance\<close>

lemma best_in_set: "best f b cs \<in> set (b # cs)"
  by (induction cs arbitrary: b) auto

lemma best_greatest: "c \<in> set (b # cs) \<Longrightarrow> f c \<le> f (best f b cs)"
proof (induction cs arbitrary: b c)
  case Nil
  then show ?case by simp
next
  case (Cons x cs)
  show ?case
  proof (cases "f b < f x")
    case True
    have "f c \<le> f (best f x cs)"
    proof (cases "c = b")
      case True
      have "f x \<le> f (best f x cs)" by (rule Cons.IH) simp
      with \<open>f b < f x\<close> True show ?thesis by simp
    next
      case False
      with Cons.prems have "c \<in> set (x # cs)" by simp
      then show ?thesis by (rule Cons.IH)
    qed
    with True show ?thesis by simp
  next
    case False
    have "f c \<le> f (best f b cs)"
    proof (cases "c = x")
      case True
      have "f b \<le> f (best f b cs)" by (rule Cons.IH) simp
      with False True show ?thesis by simp
    next
      case False
      with Cons.prems have "c \<in> set (b # cs)" by auto
      then show ?thesis by (rule Cons.IH)
    qed
    with False show ?thesis by simp
  qed
qed

lemma mmr_select_greedy:
  "\<exists>picks. mmr_select obj n selected pool = selected @ picks
     \<and> length picks = min n (length pool)
     \<and> set picks \<subseteq> set pool
     \<and> (\<forall>i < length picks. \<forall>c \<in> set pool. c \<notin> set (take i picks) \<longrightarrow>
           obj (selected @ take i picks) c \<le> obj (selected @ take i picks) (picks ! i))"
proof (induction n arbitrary: selected pool)
  case 0
  show ?case by simp
next
  case (Suc n)
  show ?case
  proof (cases pool)
    case Nil
    then show ?thesis by simp
  next
    case (Cons c cs)
    define b where "b = best (obj selected) c cs"
    have b_in: "b \<in> set pool" unfolding b_def Cons by (rule best_in_set)
    have b_max: "\<And>x. x \<in> set pool \<Longrightarrow> obj selected x \<le> obj selected b"
      unfolding b_def Cons by (rule best_greatest)
    obtain picks where
      eq: "mmr_select obj n (selected @ [b]) (remove1 b pool) = (selected @ [b]) @ picks"
      and len: "length picks = min n (length (remove1 b pool))"
      and sub: "set picks \<subseteq> set (remove1 b pool)"
      and greedy: "\<forall>i < length picks. \<forall>x \<in> set (remove1 b pool). x \<notin> set (take i picks) \<longrightarrow>
           obj ((selected @ [b]) @ take i picks) x \<le> obj ((selected @ [b]) @ take i picks) (picks ! i)"
      using Suc.IH [of "selected @ [b]" "remove1 b pool"] by blast
    have step: "mmr_select obj (Suc n) selected pool = selected @ (b # picks)"
      using eq by (simp add: Cons b_def Let_def)
    have lp: "length pool = Suc (length cs)" by (simp add: Cons)
    have "length (remove1 b pool) = length pool - 1"
      using b_in by (simp add: length_remove1)
    then have "length (remove1 b pool) = length cs" by (simp add: lp)
    then have l: "length (b # picks) = min (Suc n) (length pool)"
      using len by (simp add: lp)
    have s: "set (b # picks) \<subseteq> set pool"
      using sub b_in set_remove1_subset [of b pool] by auto
    have g: "\<forall>i < length (b # picks). \<forall>x \<in> set pool. x \<notin> set (take i (b # picks)) \<longrightarrow>
           obj (selected @ take i (b # picks)) x \<le> obj (selected @ take i (b # picks)) ((b # picks) ! i)"
    proof (intro allI impI ballI)
      fix i x
      assume i: "i < length (b # picks)" and x: "x \<in> set pool"
        and fresh: "x \<notin> set (take i (b # picks))"
      show "obj (selected @ take i (b # picks)) x \<le> obj (selected @ take i (b # picks)) ((b # picks) ! i)"
      proof (cases i)
        case 0
        then show ?thesis using b_max [OF x] by simp
      next
        case (Suc j)
        from fresh Suc have "x \<noteq> b" and xj: "x \<notin> set (take j picks)" by auto
        with x have "x \<in> set (remove1 b pool)" by simp
        moreover from i Suc have "j < length picks" by simp
        ultimately have "obj ((selected @ [b]) @ take j picks) x
            \<le> obj ((selected @ [b]) @ take j picks) (picks ! j)"
          using greedy xj by blast
        then show ?thesis by (simp add: Suc)
      qed
    qed
    from step l s g show ?thesis by blast
  qed
qed

lemma retrieve_with_mmr:
  "retrieve sc h query ''mmr'' k rt =
     (Inr (map snd (max_marginal_relevance_search sc query k (k * 2)
                      (collection_entries (client rt) (handle_collection h)))),
      rt\<lparr>client := (client rt)\<lparr>search_log := search_log (client rt) @ [(handle_collection h, query)]\<rparr>\<rparr>)"
  by (simp add: retrieve_def as_retriever_def retriever_invoke_def run_search_def Let_def)

text \<open>
  C8: for \<open>k > 0\<close>, \<open>retrieve\<close> with the strategy \<open>mmr\<close> makes one search of the
  collection, of type \<open>mmr\<close> with \<open>fetch_k = 2k\<close>. The candidate pool is the first
  \<open>2k\<close> entries of the collection ranked by descending similarity to the query (all of
  them when the collection holds fewer). The result is the documents of at most \<open>k\<close>
  entries of the pool (all of the pool when it holds fewer), selected greedily: each one
  has the greatest value of the objective, relevance less the greatest similarity to an
  entry selected before it, among the entries of the pool not selected before it.
\<close>

theorem retrieve_mmr:
  assumes "0 < k"
  shows "\<exists>ranked pool picked.
      ranked = sort_key (\<lambda>e. - relevance sc query (entry_text e))
                 (collection_entries (client rt) (handle_collection h))
      \<and> sorted (map (\<lambda>e. - relevance sc query (entry_text e)) ranked)
      \<and> pool = take (nat (2 * k)) ranked
      \<and> length pool = min (nat (2 * k)) (length (collection_entries (client rt) (handle_collection h)))
      \<and> picked = mmr_select (mmr_objective sc query) (nat k) [] pool
      \<and> length picked = min (nat k) (length pool)
      \<and> set picked \<subseteq> set pool
      \<and> (\<forall>i < length picked. \<forall>c \<in> set pool. c \<notin> set (take i picked) \<longrightarrow>
            mmr_objective sc query (take i picked) c
              \<le> mmr_objective sc query (take i picked) (picked ! i))
      \<and> fst (retrieve sc h query ''mmr'' k rt) = Inr (map snd picked)
      \<and> search_log (client (snd (retrieve sc h query ''mmr'' k rt)))
           = search_log (client rt) @ [(handle_collection h, query)]"
proof -
  let ?es = "collection_entries (client rt) (handle_collection h)"
  let ?ranked = "sort_key (\<lambda>e. - relevance sc query (entry_text e)) ?es"
  let ?pool = "take (nat (2 * k)) ?ranked"
  let ?picked = "mmr_select (mmr_objective sc query) (nat k) [] ?pool"
  have sorted: "sorted (map (\<lambda>e. - relevance sc query (entry_text e)) ?ranked)"
    by (rule sorted_sort_key)
  have len: "length ?pool = min (nat (2 * k)) (length ?es)" by simp
  obtain picks where p: "?picked = [] @ picks"
    and pl: "length picks = min (nat k) (length ?pool)"
    and ps: "set picks \<subseteq> set ?pool"
    and pg: "\<forall>i < length picks. \<forall>c \<in> set ?pool. c \<notin> set (take i picks) \<longrightarrow>
           mmr_objective sc query ([] @ take i picks) c
             \<le> mmr_objective sc query ([] @ take i picks) (picks ! i)"
    using mmr_select_greedy [of "mmr_objective sc query" "nat k" "[]" ?pool] by blast
  have picked: "?picked = picks" using p by simp
  have pl': "length ?picked = min (nat k) (length ?pool)" using pl unfolding picked .
  have ps': "set ?picked \<subseteq> set ?pool" using ps unfolding picked .
  have pg': "\<forall>i < length ?picked. \<forall>c \<in> set ?pool. c \<notin> set (take i ?picked) \<longrightarrow>
           mmr_objective sc query (take i ?picked) c
             \<le> mmr_objective sc query (take i ?picked) (?picked ! i)"
    using pg unfolding picked by simp
  have res: "fst (retrieve sc h query ''mmr'' k rt) = Inr (map snd ?picked)"
    by (simp add: retrieve_with_mmr max_marginal_relevance_search_def similarity_search_def mult.commute)
  have lg: "search_log (client (snd (retrieve sc h query ''mmr'' k rt)))
           = search_log (client rt) @ [(handle_collection h, query)]"
    by (simp add: retrieve_with_mmr)
  show ?thesis
    by (rule exI [of _ ?ranked], rule exI [of _ ?pool], rule exI [of _ ?picked])
       (intro conjI refl sorted len pl' ps' pg' res lg)
qed


lemma example_ranked:
  "sort_key (\<lambda>e. - relevance example_scoring ''q'' (entry_text e)) example_entries =
     [(2, \<lparr>page_content = ''xxxx'', metadata = []\<rparr>),
      (0, \<lparr>page_content = ''xxx'', metadata = []\<rparr>),
      (3, \<lparr>page_content = ''yy'', metadata = []\<rparr>),
      (1, \<lparr>page_content = ''z'', metadata = []\<rparr>),
      (4, \<lparr>page_content = ''y'', metadata = []\<rparr>)]"
  by (simp add: example_scoring_def example_entries_def entry_text_def)

lemma example_picked:
  "mmr_select (mmr_objective example_scoring ''q'') (Suc (Suc 0)) []
     [(2, \<lparr>page_content = ''xxxx'', metadata = []\<rparr>),
      (0, \<lparr>page_content = ''xxx'', metadata = []\<rparr>),
      (3, \<lparr>page_content = ''yy'', metadata = []\<rparr>),
      (1, \<lparr>page_content = ''z'', metadata = []\<rparr>)]
   = [(2, \<lparr>page_content = ''xxxx'', metadata = []\<rparr>), (3, \<lparr>page_content = ''yy'', metadata = []\<rparr>)]"
  by (simp add: mmr_objective_def example_scoring_def entry_text_def Let_def)

theorem retrieve_mmr_witness:
  "(0::int) < 2
   \<and> fst (retrieve example_scoring (Chroma ''session_s1'') ''q'' ''mmr'' 2 example_runtime)
       = Inr [\<lparr>page_content = ''xxxx'', metadata = []\<rparr>, \<lparr>page_content = ''yy'', metadata = []\<rparr>]
   \<and> search_log (client (snd (retrieve example_scoring (Chroma ''session_s1'') ''q'' ''mmr'' 2 example_runtime)))
       = [(''session_s1'', ''q'')]"
proof -
  have es: "collection_entries (client example_runtime) (handle_collection (Chroma ''session_s1''))
      = example_entries"
    by (simp add: collection_entries_def example_runtime_def)
  have k: "(0::int) < 2" by simp
  have n: "nat (2 * 2) = Suc (Suc (Suc (Suc 0)))" "nat 2 = Suc (Suc 0)" by simp_all
  have lg: "search_log (client example_runtime) = []" by (simp add: example_runtime_def)
  from retrieve_mmr [OF k, of example_scoring "''q''" example_runtime "Chroma ''session_s1''"]
  obtain ranked pool picked where
    r: "ranked = sort_key (\<lambda>e. - relevance example_scoring ''q'' (entry_text e))
                 (collection_entries (client example_runtime) (handle_collection (Chroma ''session_s1'')))"
    and p: "pool = take (nat (2 * 2)) ranked"
    and s: "picked = mmr_select (mmr_objective example_scoring ''q'') (nat 2) [] pool"
    and res: "fst (retrieve example_scoring (Chroma ''session_s1'') ''q'' ''mmr'' 2 example_runtime)
                = Inr (map snd picked)"
    and sl: "search_log (client (snd (retrieve example_scoring (Chroma ''session_s1'') ''q'' ''mmr'' 2 example_runtime)))
           = search_log (client example_runtime) @ [(handle_collection (Chroma ''session_s1''), ''q'')]"
    by blast
  have "pool = [(2, \<lparr>page_content = ''xxxx'', metadata = []\<rparr>),
      (0, \<lparr>page_content = ''xxx'', metadata = []\<rparr>),
      (3, \<lparr>page_content = ''yy'', metadata = []\<rparr>),
      (1, \<lparr>page_content = ''z'', metadata = []\<rparr>)]"
    unfolding p r es example_ranked n by simp
  then have "picked = [(2, \<lparr>page_content = ''xxxx'', metadata = []\<rparr>),
      (3, \<lparr>page_content = ''yy'', metadata = []\<rparr>)]"
    unfolding s n by (simp only: example_picked)
  then show ?thesis using res sl lg by simp
qed

subsection \<open>The document loader\<close>

lemma load_file_returns:
  "load_file env p = Inr (ds, w) \<Longrightarrow> loaded_documents env p = ds \<and> load_records env p = w"
  by (auto simp: load_file_def loaded_documents_def load_records_def split: if_splits sum.splits)

lemma load_file_raises:
  "load_file env p = Inl e \<Longrightarrow>
     loaded_documents env p = [] \<and> load_records env p = [Error_loading_file p e]"
  by (auto simp: load_file_def loaded_documents_def load_records_def split: if_splits sum.splits)

lemma load_loop_concat:
  "load_loop env paths documents lg =
     (documents @ concat (map (loaded_documents env) paths),
      lg @ concat (map (load_records env) paths))"
proof (induction paths arbitrary: documents lg)
  case Nil
  show ?case by simp
next
  case (Cons p paths)
  show ?case
  proof (cases "load_file env p")
    case (Inl e)
    then show ?thesis using load_file_raises [OF Inl] by (simp add: Cons.IH)
  next
    case (Inr r)
    obtain ds w where r: "r = (ds, w)" by (cases r)
    have "load_file env p = Inr (ds, w)" using Inr r by simp
    then show ?thesis using load_file_returns [of env p ds w] by (simp add: Cons.IH)
  qed
qed

lemma skipped_loads_nothing: "skipped env p \<Longrightarrow> loaded_documents env p = []"
  by (auto simp: skipped_def loaded_documents_def split: if_splits sum.splits)

text \<open>
  C4: \<open>load_documents\<close> returns for every list of paths: the concatenation, in input
  order, of the documents each path contributes, logging in that order one record for
  each path it skips, and changing nothing else. A path whose extension is neither
  \<open>.pdf\<close> nor \<open>.html\<close> contributes nothing and logs the warning. A \<open>.pdf\<close> path
  contributes what the PDF loader returns and logs nothing, or, when that loader raises,
  contributes nothing and logs the error with the exception; likewise an \<open>.html\<close> path
  with the HTML loader. So the result is empty when every path is skipped.
\<close>

theorem load_documents_skips_failures:
  "fst (load_documents env (Path_list paths) rt) = concat (map (loaded_documents env) paths)
   \<and> logged (snd (load_documents env (Path_list paths) rt))
        = logged rt @ concat (map (load_records env) paths)
   \<and> client (snd (load_documents env (Path_list paths) rt)) = client rt
   \<and> ((\<forall>p \<in> set paths. skipped env p) \<longrightarrow> fst (load_documents env (Path_list paths) rt) = [])
   \<and> (\<forall>p. (\<not> endswith p ''.pdf'' \<and> \<not> endswith p ''.html'' \<longrightarrow>
             skipped env p \<and> loaded_documents env p = []
             \<and> load_records env p = [Warning_unsupported_file_type p])
         \<and> (endswith p ''.pdf'' \<longrightarrow>
             (\<forall>e. load_pdf_document env p = Inl e \<longrightarrow>
                skipped env p \<and> loaded_documents env p = []
                \<and> load_records env p = [Error_loading_file p e])
             \<and> (\<forall>ds. load_pdf_document env p = Inr ds \<longrightarrow>
                \<not> skipped env p \<and> loaded_documents env p = ds \<and> load_records env p = []))
         \<and> (\<not> endswith p ''.pdf'' \<and> endswith p ''.html'' \<longrightarrow>
             (\<forall>e. load_html_document env p = Inl e \<longrightarrow>
                skipped env p \<and> loaded_documents env p = []
                \<and> load_records env p = [Error_loading_file p e])
             \<and> (\<forall>ds. load_html_document env p = Inr ds \<longrightarrow>
                \<not> skipped env p \<and> loaded_documents env p = ds \<and> load_records env p = [])))"
proof -
  have docs: "fst (load_documents env (Path_list paths) rt) = concat (map (loaded_documents env) paths)"
    by (simp add: load_documents_def load_loop_concat)
  have lg: "logged (snd (load_documents env (Path_list paths) rt))
        = logged rt @ concat (map (load_records env) paths)"
    by (simp add: load_documents_def load_loop_concat)
  have cl: "client (snd (load_documents env (Path_list paths) rt)) = client rt"
    by (simp add: load_documents_def load_loop_concat)
  have none: "(\<forall>p \<in> set paths. skipped env p) \<longrightarrow> fst (load_documents env (Path_list paths) rt) = []"
    unfolding docs by (simp add: skipped_loads_nothing)
  have per: "\<forall>p. (\<not> endswith p ''.pdf'' \<and> \<not> endswith p ''.html'' \<longrightarrow>
             skipped env p \<and> loaded_documents env p = []
             \<and> load_records env p = [Warning_unsupported_file_type p])
         \<and> (endswith p ''.pdf'' \<longrightarrow>
             (\<forall>e. load_pdf_document env p = Inl e \<longrightarrow>
                skipped env p \<and> loaded_documents env p = []
                \<and> load_records env p = [Error_loading_file p e])
             \<and> (\<forall>ds. load_pdf_document env p = Inr ds \<longrightarrow>
                \<not> skipped env p \<and> loaded_documents env p = ds \<and> load_records env p = []))
         \<and> (\<not> endswith p ''.pdf'' \<and> endswith p ''.html'' \<longrightarrow>
             (\<forall>e. load_html_document env p = Inl e \<longrightarrow>
                skipped env p \<and> loaded_documents env p = []
                \<and> load_records env p = [Error_loading_file p e])
             \<and> (\<forall>ds. load_html_document env p = Inr ds \<longrightarrow>
                \<not> skipped env p \<and> loaded_documents env p = ds \<and> load_records env p = []))"
    by (simp add: loaded_documents_def load_records_def skipped_def)
  from docs lg cl none per show ?thesis by blast
qed

lemma example_env_loads:
  "loaded_documents example_env ''valid.pdf'' = [\<lparr>page_content = ''valid.pdf'', metadata = []\<rparr>]"
  "loaded_documents example_env ''corrupt.pdf'' = []"
  "loaded_documents example_env ''notes.txt'' = []"
  "loaded_documents example_env ''corrupt.html'' = []"
  "loaded_documents example_env ''page.html'' = [\<lparr>page_content = ''page.html'', metadata = []\<rparr>]"
  "load_records example_env ''valid.pdf'' = []"
  "load_records example_env ''corrupt.pdf''
     = [Error_loading_file ''corrupt.pdf'' (OtherException ''bad pdf'')]"
  "load_records example_env ''notes.txt'' = [Warning_unsupported_file_type ''notes.txt'']"
  "load_records example_env ''corrupt.html''
     = [Error_loading_file ''corrupt.html'' (OtherException ''bad html'')]"
  "load_records example_env ''page.html'' = []"
  "skipped example_env ''corrupt.pdf''"
  "skipped example_env ''notes.txt''"
  "skipped example_env ''corrupt.html''"
  by (simp_all add: loaded_documents_def load_records_def skipped_def example_env_def endswith_def)

theorem load_documents_skips_failures_witness:
  "fst (load_documents example_env
          (Path_list [''corrupt.pdf'', ''notes.txt'', ''corrupt.html'']) (new_runtime example_rule)) = []
   \<and> fst (load_documents example_env
          (Path_list [''valid.pdf'', ''corrupt.pdf'', ''notes.txt'', ''corrupt.html'', ''page.html''])
          (new_runtime example_rule))
       = [\<lparr>page_content = ''valid.pdf'', metadata = []\<rparr>, \<lparr>page_content = ''page.html'', metadata = []\<rparr>]
   \<and> logged (snd (load_documents example_env
          (Path_list [''valid.pdf'', ''corrupt.pdf'', ''notes.txt'', ''corrupt.html'', ''page.html''])
          (new_runtime example_rule)))
       = [Error_loading_file ''corrupt.pdf'' (OtherException ''bad pdf''),
          Warning_unsupported_file_type ''notes.txt'',
          Error_loading_file ''corrupt.html'' (OtherException ''bad html'')]"
  using load_documents_skips_failures
          [of example_env "[''corrupt.pdf'', ''notes.txt'', ''corrupt.html'']" "new_runtime example_rule"]
        load_documents_skips_failures
          [of example_env "[''valid.pdf'', ''corrupt.pdf'', ''notes.txt'', ''corrupt.html'', ''page.html'']"
             "new_runtime example_rule"]
  by (simp add: example_env_loads new_runtime_simps)

subsection \<open>The orchestrator\<close>

lemma retriever_invoke_simps:
  "fst (retriever_invoke sc r q cl)
     = map snd (run_search sc r q (collection_entries cl (handle_collection (retriever_store r))))"
  "collection_entries (snd (retriever_invoke sc r q cl)) n = collection_entries cl n"
  "next_id (snd (retriever_invoke sc r q cl)) = next_id cl"
  "name_error (snd (retriever_invoke sc r q cl)) = name_error cl"
  "search_log (snd (retriever_invoke sc r q cl))
     = search_log cl @ [(handle_collection (retriever_store r), q)]"
  by (simp_all add: retriever_invoke_def collection_entries_def Let_def)

lemma chain_invoke_simps:
  "fst (chain_invoke sc chain q cl)
     = chain_llm chain \<lparr>prompt_system = chain_system_prompt chain,
          prompt_context = format_docs (fst (retriever_invoke sc (chain_retriever chain) q cl)),
          prompt_question = q\<rparr>"
  "snd (chain_invoke sc chain q cl) = snd (retriever_invoke sc (chain_retriever chain) q cl)"
  by (simp_all add: chain_invoke_def split_def Let_def)

lemma as_retriever_store:
  "as_retriever h st k fk = Inr r \<Longrightarrow> retriever_store r = h"
  by (auto simp: as_retriever_def split: if_splits)

lemma query_with_sources_cached:
  assumes "cached_vectorstore (vectorstore_service_of rs) = Some h"
  shows "query_with_sources sc rs question llm rt =
     (case as_retriever h (retrieval_strategy (config rs)) (retrieval_k (config rs)) None of
        Inl e \<Rightarrow> (Inl e, put_vectorstore_service rs (vectorstore_service_of rs), rt)
      | Inr r \<Rightarrow>
          (let found = retriever_invoke sc r question (client rt);
               answer = chain_invoke sc (create_rag_chain llm r None) question (snd found)
           in (case fst answer of
                 Inl e \<Rightarrow> Inl e
               | Inr a \<Rightarrow> Inr (a, map page_content (fst found)),
               put_vectorstore_service rs (vectorstore_service_of rs),
               rt\<lparr>client := snd answer\<rparr>)))"
  by (simp add: query_with_sources_def get_vectorstore_cached [OF assms] split_def Let_def
        split: sum.splits)

lemma query_with_sources_log:
  assumes "cached_vectorstore (vectorstore_service_of rs) = Some h"
    and "retrieval_strategy (config rs) = ''similarity'' \<or> retrieval_strategy (config rs) = ''mmr''"
  shows "search_log (client (snd (snd (query_with_sources sc rs question llm rt))))
           = search_log (client rt) @ [(handle_collection h, question), (handle_collection h, question)]"
proof -
  obtain r where r: "as_retriever h (retrieval_strategy (config rs)) (retrieval_k (config rs)) None = Inr r"
    using assms(2) by (auto simp: as_retriever_def)
  have st: "retriever_store r = h" using r by (rule as_retriever_store)
  show ?thesis
    by (simp add: query_with_sources_cached [OF assms(1)] r Let_def chain_invoke_simps
          retriever_invoke_simps create_rag_chain_def st split: sum.splits)
qed

lemma initialize_vectorstore_new:
  "initialize_vectorstore (new_rag_service cfg sid) False rt =
     (case name_error (client rt) (session_collection sid) of
        Some e \<Rightarrow>
          (Inl e,
           put_vectorstore_service (new_rag_service cfg sid)
             ((new_vectorstore_service (session_collection sid) (Some (config_embedding_model cfg)))
                \<lparr>cached_embeddings := Some (HuggingFaceEmbeddings (Some (config_embedding_model cfg)))\<rparr>),
           rt)
      | None \<Rightarrow>
          (Inr (),
           put_vectorstore_service (new_rag_service cfg sid)
             ((new_vectorstore_service (session_collection sid) (Some (config_embedding_model cfg)))
                \<lparr>cached_embeddings := Some (HuggingFaceEmbeddings (Some (config_embedding_model cfg))),
                 cached_vectorstore := Some (Chroma (session_collection sid))\<rparr>),
           rt\<lparr>client := (client rt)\<lparr>collections :=
                 (collections (client rt))(session_collection sid \<mapsto>
                    collection_entries (client rt) (session_collection sid))\<rparr>\<rparr>))"
  by (simp add: initialize_vectorstore_def new_rag_service_def vectorstore_service_of_def
       new_vectorstore_service_def vs_exists_def create_empty_vectorstore_def get_embeddings_def
       chroma_init_def returns_none_def Let_def split: option.splits)

lemma initialize_vectorstore_new_accepted:
  assumes "name_error (client rt) (session_collection sid) = None"
  shows "fst (initialize_vectorstore (new_rag_service cfg sid) False rt) = Inr ()"
    and "cached_vectorstore (vectorstore_service_of
            (fst (snd (initialize_vectorstore (new_rag_service cfg sid) False rt))))
           = Some (Chroma (session_collection sid))"
    and "config (fst (snd (initialize_vectorstore (new_rag_service cfg sid) False rt))) = cfg"
    and "search_log (client (snd (snd (initialize_vectorstore (new_rag_service cfg sid) False rt))))
           = search_log (client rt)"
    and "next_id (client (snd (snd (initialize_vectorstore (new_rag_service cfg sid) False rt))))
           = next_id (client rt)"
    and "collection_entries (client (snd (snd (initialize_vectorstore (new_rag_service cfg sid) False rt)))) n
           = collection_entries (client rt) n"
    and "name_error (client (snd (snd (initialize_vectorstore (new_rag_service cfg sid) False rt))))
           = name_error (client rt)"
  unfolding initialize_vectorstore_new assms
  by (simp_all add: vectorstore_service_of_def put_vectorstore_service_def new_rag_service_def
        collection_entries_def)

lemma vs_add_documents_cached:
  assumes "cached_vectorstore vs = Some h"
  shows "vs_add_documents vs docs rt =
     (fst (chroma_add_documents h docs (client rt)), vs,
      rt\<lparr>client := snd (chroma_add_documents h docs (client rt))\<rparr>)"
  by (simp add: vs_add_documents_def get_vectorstore_cached [OF assms] split_def Let_def)

text \<open>
  C10 (the code departs from the claim): with \<open>force_rebuild\<close> set,
  \<open>RAGService.add_documents\<close> returns \<open>None\<close>, or raises when the client refuses the
  collection name, without reading the given paths: the result is the same for every
  list of paths and every loader, no document service is built and nothing is logged.
  But the store it constructs is not an empty one: every collection holds the same
  entries after the call as before it, the session's own collection included.
\<close>

theorem add_documents_force_rebuild:
  "(case rag_add_documents env rs paths True rt of
      (result, rs', rt') \<Rightarrow>
         result = (case name_error (client rt) (collection_name (vectorstore_service_of rs)) of
                     None \<Rightarrow> Inr () | Some e \<Rightarrow> Inl e)
         \<and> collection_entries (client rt') n = collection_entries (client rt) n
         \<and> next_id (client rt') = next_id (client rt)
         \<and> logged rt' = logged rt
         \<and> cached_document_service rs' = cached_document_service rs)
   \<and> rag_add_documents env rs paths True rt = rag_add_documents env' rs paths' True rt"
  by (simp add: rag_add_documents_def initialize_vectorstore_def create_empty_vectorstore_def
        chroma_init_def put_vectorstore_service_def returns_none_def
        collection_entries_def split_def Let_def split: option.splits)

theorem add_documents_force_rebuild_witness:
  "case initialize_vectorstore (new_rag_service default_config ''s1'') False (new_runtime example_rule) of
     (made, rs, rt1) \<Rightarrow>
       (case vs_add_documents (vectorstore_service_of rs)
               [\<lparr>page_content = ''a'', metadata = []\<rparr>, \<lparr>page_content = ''b'', metadata = []\<rparr>] rt1 of
          (added, vs, rt2) \<Rightarrow>
            (case rag_add_documents example_env (put_vectorstore_service rs vs) [''new.pdf''] True rt2 of
               (result, rs', rt3) \<Rightarrow>
                 made = Inr () \<and> added = Inr [0, 1] \<and> result = Inr ()
                 \<and> collection_entries (client rt3) ''session_s1''
                     = [(0, \<lparr>page_content = ''a'', metadata = []\<rparr>),
                        (1, \<lparr>page_content = ''b'', metadata = []\<rparr>)]))"
proof -
  let ?docs = "[\<lparr>page_content = ''a'', metadata = []\<rparr>, \<lparr>page_content = ''b'', metadata = []\<rparr>]"
  have nm: "session_collection ''s1'' = ''session_s1''" by (simp add: session_collection_def)
  have acc: "name_error (client (new_runtime example_rule)) (session_collection ''s1'') = None"
    by (simp add: new_runtime_simps nm example_rule_accepts)
  obtain made rs rt1 where i:
    "initialize_vectorstore (new_rag_service default_config ''s1'') False (new_runtime example_rule)
       = (made, rs, rt1)"
    by (cases "initialize_vectorstore (new_rag_service default_config ''s1'') False (new_runtime example_rule)")
       auto
  have made: "made = Inr ()"
    and c: "cached_vectorstore (vectorstore_service_of rs) = Some (Chroma ''session_s1'')"
    and nid: "next_id (client rt1) = 0"
    and es: "collection_entries (client rt1) ''session_s1'' = []"
    and ne: "name_error (client rt1) = example_rule"
    using initialize_vectorstore_new_accepted [OF acc, of default_config]
    by (simp_all add: i nm new_runtime_simps)
  obtain added vs rt2 where a: "vs_add_documents (vectorstore_service_of rs) ?docs rt1 = (added, vs, rt2)"
    by (cases "vs_add_documents (vectorstore_service_of rs) ?docs rt1") auto
  have added: "added = Inr [0, 1]" and vs: "vs = vectorstore_service_of rs"
    and es2: "collection_entries (client rt2) ''session_s1''
        = [(0, \<lparr>page_content = ''a'', metadata = []\<rparr>), (1, \<lparr>page_content = ''b'', metadata = []\<rparr>)]"
    and ne2: "name_error (client rt2) = example_rule"
    using a unfolding vs_add_documents_cached [OF c]
    by (auto simp add: chroma_add_documents_simps nid es ne upt_rec)
  have cn: "collection_name (vectorstore_service_of (put_vectorstore_service rs vs)) = ''session_s1''"
    using c i acc unfolding initialize_vectorstore_new
    by (auto simp add: vs vectorstore_service_of_def put_vectorstore_service_def
          new_rag_service_def new_vectorstore_service_def nm)
  obtain result rs' rt3 where
    f: "rag_add_documents example_env (put_vectorstore_service rs vs) [''new.pdf''] True rt2
          = (result, rs', rt3)"
    by (cases "rag_add_documents example_env (put_vectorstore_service rs vs) [''new.pdf''] True rt2") auto
  have "result = Inr () \<and> collection_entries (client rt3) ''session_s1''
      = collection_entries (client rt2) ''session_s1''"
    using add_documents_force_rebuild [where env = example_env and rs = "put_vectorstore_service rs vs"
        and paths = "[''new.pdf'']" and rt = rt2 and n = "''session_s1''"]
    by (simp add: f cn ne2 example_rule_accepts)
  then show ?thesis by (simp add: i a f made added es2)
qed

text \<open>
  C1 (the code departs from the claim): on a session that has been initialised, whatever
  documents are given to it, one call of \<open>query_with_sources\<close> makes two searches of the
  session's collection, the first for the references and the second, inside the chain,
  for the context of the prompt.
\<close>

theorem query_with_sources_retrieves_twice:
  assumes "name_error (client rt) (session_collection sid) = None"
  shows "case initialize_vectorstore (new_rag_service default_config sid) False rt of
     (made, rs, rt1) \<Rightarrow>
       (case vs_add_documents (vectorstore_service_of rs) docs rt1 of
          (added, vs, rt2) \<Rightarrow>
            (case query_with_sources sc (put_vectorstore_service rs vs) question llm rt2 of
               (result, rs', rt3) \<Rightarrow>
                 made = Inr ()
                 \<and> added = (if docs = [] then Inl (LibraryValueError Empty_insert)
                            else Inr [next_id (client rt) ..< next_id (client rt) + length docs])
                 \<and> search_log (client rt3)
                   = search_log (client rt) @ [(session_collection sid, question),
                                                (session_collection sid, question)]))"
proof -
  obtain made rs rt1 where i:
    "initialize_vectorstore (new_rag_service default_config sid) False rt = (made, rs, rt1)"
    by (cases "initialize_vectorstore (new_rag_service default_config sid) False rt") auto
  have made: "made = Inr ()"
    and c: "cached_vectorstore (vectorstore_service_of rs) = Some (Chroma (session_collection sid))"
    and cfg: "config rs = default_config"
    and nid: "next_id (client rt1) = next_id (client rt)"
    and sl: "search_log (client rt1) = search_log (client rt)"
    using initialize_vectorstore_new_accepted [OF assms, of default_config] by (simp_all add: i)
  obtain added vs rt2 where a: "vs_add_documents (vectorstore_service_of rs) docs rt1 = (added, vs, rt2)"
    by (cases "vs_add_documents (vectorstore_service_of rs) docs rt1") auto
  have added: "added = (if docs = [] then Inl (LibraryValueError Empty_insert)
                            else Inr [next_id (client rt) ..< next_id (client rt) + length docs])"
    and vs: "vs = vectorstore_service_of rs"
    and sl2: "search_log (client rt2) = search_log (client rt)"
    using a unfolding vs_add_documents_cached [OF c]
    by (auto simp add: chroma_add_documents_simps nid sl)
  let ?rs = "put_vectorstore_service rs vs"
  have c2: "cached_vectorstore (vectorstore_service_of ?rs) = Some (Chroma (session_collection sid))"
    using c by (simp add: vs vectorstore_service_of_def put_vectorstore_service_def)
  have strat: "retrieval_strategy (config ?rs) = ''similarity'' \<or> retrieval_strategy (config ?rs) = ''mmr''"
    by (simp add: put_vectorstore_service_def cfg default_config_def)
  obtain result rs' rt3 where q: "query_with_sources sc ?rs question llm rt2 = (result, rs', rt3)"
    by (cases "query_with_sources sc ?rs question llm rt2") auto
  have "search_log (client rt3)
      = search_log (client rt) @ [(session_collection sid, question), (session_collection sid, question)]"
    using query_with_sources_log [OF c2 strat, of sc question llm rt2] by (simp add: q sl2)
  then show ?thesis by (simp add: i a q made added)
qed

theorem query_with_sources_retrieves_twice_witness:
  "case initialize_vectorstore (new_rag_service default_config ''s1'') False (new_runtime example_rule) of
     (made, rs, rt1) \<Rightarrow>
       (case vs_add_documents (vectorstore_service_of rs) [\<lparr>page_content = ''a'', metadata = []\<rparr>] rt1 of
          (added, vs, rt2) \<Rightarrow>
            (case query_with_sources example_scoring (put_vectorstore_service rs vs) ''q''
                    (example_generate (ChatOllama ''m'' 0)) rt2 of
               (result, rs', rt3) \<Rightarrow>
                 made = Inr () \<and> added = Inr [0]
                 \<and> search_log (client rt3) = [(''session_s1'', ''q''), (''session_s1'', ''q'')]))"
proof -
  have nm: "session_collection ''s1'' = ''session_s1''" by (simp add: session_collection_def)
  have acc: "name_error (client (new_runtime example_rule)) (session_collection ''s1'') = None"
    by (simp add: new_runtime_simps nm example_rule_accepts)
  show ?thesis
    using query_with_sources_retrieves_twice [OF acc, where docs = "[\<lparr>page_content = ''a'', metadata = []\<rparr>]"
        and sc = example_scoring and question = "''q''" and llm = "example_generate (ChatOllama ''m'' 0)"]
    by (simp add: nm new_runtime_simps split: prod.splits)
qed

subsection \<open>Session isolation\<close>

lemma session_collection_inject: "(session_collection a = session_collection b) = (a = b)"
  by (simp add: session_collection_def)

lemma session_ok_store:
  "session_ok sid s \<Longrightarrow> cached_vectorstore (vectorstore_service_of s) = Some (Chroma (session_collection sid))"
  by (auto simp: session_ok_def vectorstore_service_of_def split: option.splits)

lemma initialize_vectorstore_new_cong:
  assumes "name_error (client rt) = name_error (client rt')"
  shows "fst (initialize_vectorstore (new_rag_service cfg sid) False rt)
           = fst (initialize_vectorstore (new_rag_service cfg sid) False rt')"
    and "fst (snd (initialize_vectorstore (new_rag_service cfg sid) False rt))
           = fst (snd (initialize_vectorstore (new_rag_service cfg sid) False rt'))"
  unfolding initialize_vectorstore_new assms by (simp_all split: option.splits)

lemma initialize_vectorstore_new_keeps:
  "collection_entries (client (snd (snd (initialize_vectorstore (new_rag_service cfg sid) False rt)))) n
     = collection_entries (client rt) n"
  "name_error (client (snd (snd (initialize_vectorstore (new_rag_service cfg sid) False rt))))
     = name_error (client rt)"
  unfolding initialize_vectorstore_new
  by (simp_all add: collection_entries_def split: option.splits)

lemma session_ok_initialize:
  "fst (initialize_vectorstore (new_rag_service cfg sid) False rt) = Inr u \<Longrightarrow>
     session_ok sid (fst (snd (initialize_vectorstore (new_rag_service cfg sid) False rt)))"
  unfolding initialize_vectorstore_new
  by (simp add: session_ok_def put_vectorstore_service_def new_rag_service_def
        new_vectorstore_service_def split: option.splits)

lemma get_rag_service_old: "sessions a sid = Some s \<Longrightarrow> get_rag_service sid a = (Inr s, a)"
  by (simp add: get_rag_service_def)

lemma get_rag_service_new:
  "sessions a sid = None \<Longrightarrow>
     get_rag_service sid a =
       (case fst (initialize_vectorstore (new_rag_service default_config sid) False (app_runtime a)) of
          Inl e \<Rightarrow>
            (Inl e,
             a\<lparr>app_runtime :=
                 snd (snd (initialize_vectorstore (new_rag_service default_config sid) False (app_runtime a)))\<rparr>)
        | Inr u \<Rightarrow>
            (Inr (fst (snd (initialize_vectorstore (new_rag_service default_config sid) False (app_runtime a)))),
             a\<lparr>sessions := (sessions a)(sid \<mapsto>
                   fst (snd (initialize_vectorstore (new_rag_service default_config sid) False (app_runtime a)))),
               app_runtime :=
                 snd (snd (initialize_vectorstore (new_rag_service default_config sid) False (app_runtime a)))\<rparr>))"
  by (simp add: get_rag_service_def split_def Let_def split: sum.splits)

lemma get_rag_service_keeps:
  "collection_entries (client (app_runtime (snd (get_rag_service sid a)))) n
     = collection_entries (client (app_runtime a)) n"
  "name_error (client (app_runtime (snd (get_rag_service sid a)))) = name_error (client (app_runtime a))"
  by (cases "sessions a sid";
      simp add: get_rag_service_new get_rag_service_old initialize_vectorstore_new_keeps
        split: sum.splits)+

lemma get_rag_service_other:
  "sid \<noteq> b \<Longrightarrow> sessions (snd (get_rag_service sid a)) b = sessions a b"
  by (cases "sessions a sid")
     (simp_all add: get_rag_service_new get_rag_service_old split: sum.splits)

lemma get_rag_service_fst_cong:
  assumes "sessions a1 b = sessions a2 b"
    and "name_error (client (app_runtime a1)) = name_error (client (app_runtime a2))"
  shows "fst (get_rag_service b a1) = fst (get_rag_service b a2)"
proof (cases "sessions a2 b")
  case None
  with assms(1) have n: "sessions a1 b = None" by simp
  show ?thesis
    using initialize_vectorstore_new_cong [OF assms(2), of default_config b]
    by (simp add: get_rag_service_new [OF n] get_rag_service_new [OF None] split: sum.splits)
next
  case (Some s)
  with assms(1) have "sessions a1 b = Some s" by simp
  then show ?thesis using Some by (simp add: get_rag_service_old)
qed

lemma get_rag_service_ok:
  assumes "registry_ok a" and "fst (get_rag_service sid a) = Inr s"
  shows "session_ok sid s"
proof (cases "sessions a sid")
  case None
  show ?thesis
    using assms(2) session_ok_initialize [of default_config sid "app_runtime a"]
    by (auto simp add: get_rag_service_new [OF None] split: sum.splits)
next
  case (Some s')
  then show ?thesis using assms by (simp add: get_rag_service_old registry_ok_def)
qed

lemma get_rag_service_registry:
  assumes "registry_ok a"
  shows "registry_ok (snd (get_rag_service sid a))"
proof (cases "sessions a sid")
  case None
  show ?thesis
    using assms session_ok_initialize [of default_config sid "app_runtime a"]
    by (auto simp add: get_rag_service_new [OF None] registry_ok_def split: sum.splits)
next
  case (Some s)
  then show ?thesis using assms by (simp add: get_rag_service_old)
qed

lemma get_llm_fst: "fst (get_llm environ p m t k rt) = fst (get_llm environ p m t k rt')"
  by (simp add: get_llm_def split: option.splits)

lemma get_llm_client: "client (snd (get_llm environ p m t k rt)) = client rt"
  by (simp add: get_llm_def split: option.splits)

lemma query_with_sources_fst_cong:
  assumes "cached_vectorstore (vectorstore_service_of rs) = Some h"
    and "collection_entries (client rt) (handle_collection h)
           = collection_entries (client rt') (handle_collection h)"
  shows "fst (query_with_sources sc rs q llm rt) = fst (query_with_sources sc rs q llm rt')"
proof (cases "as_retriever h (retrieval_strategy (config rs)) (retrieval_k (config rs)) None")
  case (Inl e)
  then show ?thesis by (simp add: query_with_sources_cached [OF assms(1)])
next
  case (Inr r)
  have st: "retriever_store r = h" using Inr by (rule as_retriever_store)
  have found: "fst (retriever_invoke sc r q (client rt)) = fst (retriever_invoke sc r q (client rt'))"
    using assms(2) by (simp add: retriever_invoke_simps st)
  have again: "\<And>cl. fst (retriever_invoke sc r q (snd (retriever_invoke sc r q cl)))
      = fst (retriever_invoke sc r q cl)"
    by (simp add: retriever_invoke_simps)
  show ?thesis
    by (simp add: query_with_sources_cached [OF assms(1)] Inr Let_def chain_invoke_simps
          create_rag_chain_def again found cong: sum.case_cong)
qed

lemma query_with_sources_service:
  assumes "cached_vectorstore (vectorstore_service_of rs) = Some h"
  shows "fst (snd (query_with_sources sc rs q llm rt))
           = put_vectorstore_service rs (vectorstore_service_of rs)"
  by (simp add: query_with_sources_cached [OF assms] Let_def split: sum.splits)

lemma ask_question_fst:
  "fst (ask_question sc environ generate request a) =
     (case fst (get_rag_service (request_session_id request) a) of
        Inl e \<Rightarrow> Inl (http_of_exn e)
      | Inr service \<Rightarrow>
          (case fst (get_llm environ (request_provider request) (request_model request)
                       (request_temperature request) (Some (request_api_key request))
                       (app_runtime (snd (get_rag_service (request_session_id request) a)))) of
             Inl e \<Rightarrow> Inl (http_of_exn e)
           | Inr llm \<Rightarrow>
               (case fst (query_with_sources sc service (request_question request) (generate llm)
                            (snd (get_llm environ (request_provider request) (request_model request)
                               (request_temperature request) (Some (request_api_key request))
                               (app_runtime (snd (get_rag_service (request_session_id request) a)))))) of
                  Inl e \<Rightarrow> Inl (http_of_exn e)
                | Inr r \<Rightarrow> Inr r)))"
  by (simp add: ask_question_def split_def Let_def split: sum.splits)

lemma ask_question_fst_cong:
  assumes "registry_ok a1"
    and "sessions a1 (request_session_id request) = sessions a2 (request_session_id request)"
    and "collection_entries (client (app_runtime a1)) (session_collection (request_session_id request))
           = collection_entries (client (app_runtime a2)) (session_collection (request_session_id request))"
    and "name_error (client (app_runtime a1)) = name_error (client (app_runtime a2))"
  shows "fst (ask_question sc environ generate request a1)
           = fst (ask_question sc environ generate request a2)"
proof -
  let ?b = "request_session_id request"
  let ?g1 = "get_rag_service ?b a1" and ?g2 = "get_rag_service ?b a2"
  have s: "fst ?g2 = fst ?g1" using assms(2,4) by (rule get_rag_service_fst_cong [symmetric])
  let ?m1 = "get_llm environ (request_provider request) (request_model request)
                  (request_temperature request) (Some (request_api_key request)) (app_runtime (snd ?g1))"
  let ?m2 = "get_llm environ (request_provider request) (request_model request)
                  (request_temperature request) (Some (request_api_key request)) (app_runtime (snd ?g2))"
  have m: "fst ?m2 = fst ?m1" by (rule get_llm_fst)
  have e2: "collection_entries (client (snd ?m1)) (handle_collection (Chroma (session_collection ?b)))
         = collection_entries (client (snd ?m2)) (handle_collection (Chroma (session_collection ?b)))"
    using assms(3) by (simp add: get_llm_client get_rag_service_keeps)
  have q: "fst (query_with_sources sc service (request_question request) llm (snd ?m2))
         = fst (query_with_sources sc service (request_question request) llm (snd ?m1))"
    if "fst ?g1 = Inr service" for service llm
  proof -
    have "session_ok ?b service" using assms(1) that by (rule get_rag_service_ok)
    then have "cached_vectorstore (vectorstore_service_of service) = Some (Chroma (session_collection ?b))"
      by (rule session_ok_store)
    then show ?thesis using e2 [symmetric] by (rule query_with_sources_fst_cong)
  qed
  show ?thesis
    unfolding ask_question_fst s m
    by (cases "fst ?g1") (simp_all add: q cong: sum.case_cong)
qed

lemma load_documents_client: "client (snd (load_documents env paths rt)) = client rt"
  by (simp add: load_documents_def split_def Let_def)

lemma session_ok_put:
  "session_ok sid s \<Longrightarrow>
     session_ok sid ((put_vectorstore_service s (vectorstore_service_of s))\<lparr>cached_document_service := d\<rparr>)"
  by (auto simp: session_ok_def put_vectorstore_service_def vectorstore_service_of_def
        split: option.splits)

lemma upload_files_snd:
  assumes "registry_ok app" and "files \<noteq> []"
  shows "snd (upload_files env a files app) =
     (case fst (get_rag_service a app) of
        Inl e \<Rightarrow> snd (get_rag_service a app)
      | Inr service \<Rightarrow>
          (let a1 = snd (get_rag_service a app);
               ld = load_documents env (Path_list files) (app_runtime a1);
               splits = split_documents env (fst ld) (chunk_size (config service))
                          (chunk_overlap (config service))
           in a1\<lparr>sessions := (sessions a1)(a \<mapsto>
                   (put_vectorstore_service service (vectorstore_service_of service))
                     \<lparr>cached_document_service := Some ()\<rparr>),
                 app_runtime := (snd ld)\<lparr>client :=
                   snd (chroma_add_documents (Chroma (session_collection a)) splits (client (snd ld)))\<rparr>\<rparr>))"
proof (cases "fst (get_rag_service a app)")
  case (Inl e)
  then show ?thesis using assms(2) by (simp add: upload_files_def split_def)
next
  case (Inr service)
  have "session_ok a service" using assms(1) Inr by (rule get_rag_service_ok)
  then have c: "cached_vectorstore (vectorstore_service_of service) = Some (Chroma (session_collection a))"
    by (rule session_ok_store)
  show ?thesis
    using assms(2) Inr
    by (simp add: upload_files_def split_def Let_def vs_add_documents_cached [OF c]
          split: sum.splits)
qed

lemma upload_files_other:
  assumes "a \<noteq> b" and "registry_ok app"
  shows "sessions (snd (upload_files env a files app)) b = sessions app b
       \<and> collection_entries (client (app_runtime (snd (upload_files env a files app)))) (session_collection b)
           = collection_entries (client (app_runtime app)) (session_collection b)
       \<and> name_error (client (app_runtime (snd (upload_files env a files app))))
           = name_error (client (app_runtime app))"
proof (cases "files = []")
  case True
  then show ?thesis by (simp add: upload_files_def)
next
  case False
  show ?thesis
    using assms(1) get_rag_service_other [OF assms(1), of app]
    by (cases "fst (get_rag_service a app)")
       (simp_all add: upload_files_snd [OF assms(2) False] Let_def get_rag_service_keeps
          chroma_add_documents_simps load_documents_client session_collection_inject)
qed

lemma upload_files_registry:
  assumes "registry_ok app"
  shows "registry_ok (snd (upload_files env a files app))"
proof (cases "files = []")
  case True
  then show ?thesis using assms by (simp add: upload_files_def)
next
  case False
  have r: "registry_ok (snd (get_rag_service a app))" using assms by (rule get_rag_service_registry)
  show ?thesis
  proof (cases "fst (get_rag_service a app)")
    case (Inl e)
    then show ?thesis using r by (simp add: upload_files_snd [OF assms False])
  next
    case (Inr service)
    have "session_ok a service" using assms Inr by (rule get_rag_service_ok)
    then show ?thesis
      using r session_ok_put [of a service "Some ()"]
      by (simp add: upload_files_snd [OF assms False] Inr Let_def registry_ok_def)
  qed
qed

lemma registry_ok_new_app: "registry_ok (new_app rule)"
  by (simp add: registry_ok_def new_app_def)

lemma delete_session_registry:
  "registry_ok app \<Longrightarrow> registry_ok (snd (delete_session sid app))"
  by (auto simp: delete_session_def registry_ok_def split: option.splits)

lemma ask_question_registry:
  assumes "registry_ok app"
  shows "registry_ok (snd (ask_question sc environ generate request app))"
proof -
  let ?b = "request_session_id request"
  have r: "registry_ok (snd (get_rag_service ?b app))" using assms by (rule get_rag_service_registry)
  show ?thesis
  proof (cases "fst (get_rag_service ?b app)")
    case (Inl e)
    then show ?thesis using r by (simp add: ask_question_def split_def Let_def)
  next
    case (Inr service)
    have ok: "session_ok ?b service" using assms Inr by (rule get_rag_service_ok)
    then have c: "cached_vectorstore (vectorstore_service_of service) = Some (Chroma (session_collection ?b))"
      by (rule session_ok_store)
    have p: "session_ok ?b (put_vectorstore_service service (vectorstore_service_of service))"
      using session_ok_put [OF ok, of "cached_document_service service"]
      by (simp add: put_vectorstore_service_def)
    show ?thesis
      using r p Inr
      by (simp add: ask_question_def split_def Let_def registry_ok_def
            query_with_sources_service [OF c] split: sum.splits)
  qed
qed

text \<open>
  C3: the collection names of two distinct session ids are distinct. In a well-formed
  registry, an upload to session \<open>a\<close> leaves the collection of any other session \<open>b\<close>
  as it was, and the response to any question put to session \<open>b\<close> (answer and
  references) is the same after the upload as before it: nothing ingested under \<open>a\<close>
  is retrieved for \<open>b\<close>. The registry stays well formed.
\<close>

theorem session_isolation:
  assumes "a \<noteq> b" and "registry_ok app" and "request_session_id request = b"
  shows "session_collection a \<noteq> session_collection b
       \<and> collection_entries (client (app_runtime (snd (upload_files env a files app)))) (session_collection b)
           = collection_entries (client (app_runtime app)) (session_collection b)
       \<and> fst (ask_question sc environ generate request (snd (upload_files env a files app)))
           = fst (ask_question sc environ generate request app)
       \<and> registry_ok (snd (upload_files env a files app))"
proof -
  have names: "session_collection a \<noteq> session_collection b"
    using assms(1) by (simp add: session_collection_inject)
  have other: "sessions (snd (upload_files env a files app)) b = sessions app b
       \<and> collection_entries (client (app_runtime (snd (upload_files env a files app)))) (session_collection b)
           = collection_entries (client (app_runtime app)) (session_collection b)
       \<and> name_error (client (app_runtime (snd (upload_files env a files app))))
           = name_error (client (app_runtime app))"
    using assms(1,2) by (rule upload_files_other)
  have reg: "registry_ok (snd (upload_files env a files app))"
    using assms(2) by (rule upload_files_registry)
  have "fst (ask_question sc environ generate request (snd (upload_files env a files app)))
           = fst (ask_question sc environ generate request app)"
    using reg other by (intro ask_question_fst_cong) (simp_all add: assms(3))
  with names other reg show ?thesis by simp
qed

lemma example_app_registry: "registry_ok example_app"
  unfolding example_app_def using registry_ok_new_app by (rule upload_files_registry)

lemma example_app_new:
  "fst (get_rag_service ''B'' (new_app example_rule))
     = Inr (fst (snd (initialize_vectorstore (new_rag_service default_config ''B'') False
                       (new_runtime example_rule))))"
proof -
  have n: "sessions (new_app example_rule) ''B'' = None" by (simp add: new_app_def)
  have acc: "name_error (client (new_runtime example_rule)) (session_collection ''B'') = None"
    by (simp add: new_runtime_simps session_collection_def example_rule_accepts)
  have rt: "app_runtime (new_app example_rule) = new_runtime example_rule"
    by (simp add: new_app_def)
  show ?thesis
    unfolding get_rag_service_new [OF n] rt
    by (simp add: initialize_vectorstore_new_accepted(1) [OF acc])
qed

lemma example_app_session:
  "sessions example_app ''B'' =
     Some ((fst (snd (initialize_vectorstore (new_rag_service default_config ''B'') False
                        (new_runtime example_rule))))
             \<lparr>cached_document_service := Some ()\<rparr>)"
proof -
  have f: "[''b.pdf''] \<noteq> []" by simp
  have acc: "name_error (client (new_runtime example_rule)) (session_collection ''B'') = None"
    by (simp add: new_runtime_simps session_collection_def example_rule_accepts)
  show ?thesis
    unfolding example_app_def upload_files_snd [OF registry_ok_new_app f] example_app_new
    unfolding initialize_vectorstore_new acc
    by (simp add: Let_def put_vectorstore_service_def vectorstore_service_of_def)
qed

lemma example_app_entries:
  "collection_entries (client (app_runtime example_app)) (session_collection ''B'')
     = [(0, \<lparr>page_content = ''b.pdf'', metadata = []\<rparr>)]"
proof -
  have f: "[''b.pdf''] \<noteq> []" by simp
  have ld: "fst (load_documents example_env (Path_list [''b.pdf'']) rt)
      = [\<lparr>page_content = ''b.pdf'', metadata = []\<rparr>]" for rt
    by (simp add: load_documents_def load_file_def example_env_def endswith_def)
  have sp: "split_documents example_env ds n m = ds" for ds n m
    by (simp add: split_documents_def example_env_def)
  have rt: "app_runtime (new_app example_rule) = new_runtime example_rule"
    by (simp add: new_app_def)
  have n: "sessions (new_app example_rule) ''B'' = None" by (simp add: new_app_def)
  have acc: "name_error (client (new_runtime example_rule)) (session_collection ''B'') = None"
    by (simp add: new_runtime_simps session_collection_def example_rule_accepts)
  have nid: "next_id (client (app_runtime (snd (get_rag_service ''B'' (new_app example_rule))))) = 0"
    unfolding get_rag_service_new [OF n] rt
    by (simp add: initialize_vectorstore_new_accepted(1,5) [OF acc] new_runtime_simps)
  show ?thesis
    unfolding example_app_def upload_files_snd [OF registry_ok_new_app f] example_app_new
    by (simp add: Let_def ld sp nid load_documents_client chroma_add_documents_simps
          get_rag_service_keeps rt new_runtime_simps)
qed

lemma example_app_answer:
  "fst (ask_question example_scoring Map.empty example_generate example_request example_app)
     = Inr (''b.pdf'', [''b.pdf''])"
proof -
  have g: "get_rag_service ''B'' example_app = (Inr (the (sessions example_app ''B'')), example_app)"
    by (rule get_rag_service_old) (simp add: example_app_session)
  have c: "cached_vectorstore (vectorstore_service_of (the (sessions example_app ''B'')))
      = Some (Chroma (session_collection ''B''))"
    using example_app_registry
    by (intro session_ok_store) (simp add: registry_ok_def example_app_session)
  have acc: "name_error (client (new_runtime example_rule)) (session_collection ''B'') = None"
    by (simp add: new_runtime_simps session_collection_def example_rule_accepts)
  have cfg: "config (the (sessions example_app ''B'')) = default_config"
    unfolding example_app_session
    by (simp add: initialize_vectorstore_new_accepted(3) [OF acc])
  have m: "get_llm Map.empty ''ollama'' ''m'' (0::nat) (Some []) rt = (Inr (ChatOllama ''m'' 0), rt)" for rt
    by (simp add: get_llm_def)
  have r: "as_retriever (Chroma (session_collection ''B'')) ''similarity'' 4 None
      = Inr \<lparr>retriever_store = Chroma (session_collection ''B''), search_type = ''similarity'',
             search_k = 4, search_fetch_k = None\<rparr>"
    by (simp add: as_retriever_def)
  show ?thesis
    by (simp add: ask_question_fst example_request_def g m query_with_sources_cached [OF c] cfg
          default_config_def r Let_def chain_invoke_simps retriever_invoke_simps
          create_rag_chain_def example_app_entries run_search_def
          similarity_search_def example_generate_def format_docs_def)
qed

theorem session_isolation_witness:
  "''A'' \<noteq> ''B'' \<and> registry_ok example_app \<and> request_session_id example_request = ''B''
   \<and> session_collection ''A'' \<noteq> session_collection ''B''
   \<and> fst (ask_question example_scoring Map.empty example_generate example_request
            (snd (upload_files example_env ''A'' [''a.pdf''] example_app)))
       = Inr (''b.pdf'', [''b.pdf''])"
proof -
  have ne: "''A'' \<noteq> ''B''" by simp
  have rq: "request_session_id example_request = ''B''" by (simp add: example_request_def)
  from session_isolation [OF ne example_app_registry rq, of example_env "[''a.pdf'']"
      example_scoring Map.empty example_generate]
  show ?thesis using ne rq example_app_registry by (simp add: example_app_answer)
qed

end
